theory Spec2Isabelle
  imports Complex_Main "HOL-Library.Word"
begin

section \<open>Single-precision values and their arithmetic\<close>

text \<open>
  A C++ \<^verbatim>\<open>float\<close> is either a finite real number or one of the special values
  (an infinity or a NaN). The model keeps the finite values as reals and folds every special
  value into \<open>NonFinite\<close>, which is absorbing: once a computation has met an infinity or
  a NaN the model does not follow it further, so \<open>NonFinite\<close> reads "not determined by
  this model". Signed zeros are not distinguished.

  Every operation rounds its exact result into the format. The rounding is a parameter
  \<open>R\<close> of the whole development: \<open>exact\<close> rounds nothing (real-number arithmetic),
  \<open>binary32\<close> rounds to the nearest IEEE 754 single-precision number, ties to even
  (24 significant bits, least exponent \<open>-149\<close>, overflow at \<open>2^128\<close>). The library
  functions \<^verbatim>\<open>log\<close>, \<^verbatim>\<open>log10\<close> and \<^verbatim>\<open>pow\<close> round their exact result in the
  same way.
\<close>

datatype float = Finite real | NonFinite

type_synonym rounding = "real \<Rightarrow> float"

definition exact :: rounding where
  "exact x = Finite x"

definition round_even :: "real \<Rightarrow> int" where
  "round_even x =
     (let n = \<lfloor>x\<rfloor>; d = x - of_int n
      in if d < 1 / 2 then n else if 1 / 2 < d then n + 1 else if even n then n else n + 1)"

definition binary32 :: rounding where
  "binary32 x =
     (if x = 0 then Finite 0
      else let e = max (\<lfloor>log 2 \<bar>x\<bar>\<rfloor> - 23) (- 149);
               y = of_int (round_even (x / 2 powr of_int e)) * 2 powr of_int e
           in if \<bar>y\<bar> < 2 ^ 128 then Finite y else NonFinite)"

text \<open>A literal of the source, such as \<^verbatim>\<open>0.85f\<close>: the decimal rounded into the format.\<close>

definition flit :: "rounding \<Rightarrow> real \<Rightarrow> float" where
  "flit R c = R c"

text \<open>Conversion of an \<^verbatim>\<open>int\<close> to \<^verbatim>\<open>float\<close>.\<close>

definition float_of_int :: "rounding \<Rightarrow> int \<Rightarrow> float" where
  "float_of_int R n = R (of_int n)"

fun fadd :: "rounding \<Rightarrow> float \<Rightarrow> float \<Rightarrow> float" where
  "fadd R (Finite x) (Finite y) = R (x + y)"
| "fadd R _ _ = NonFinite"

fun fsub :: "rounding \<Rightarrow> float \<Rightarrow> float \<Rightarrow> float" where
  "fsub R (Finite x) (Finite y) = R (x - y)"
| "fsub R _ _ = NonFinite"

fun fmul :: "rounding \<Rightarrow> float \<Rightarrow> float \<Rightarrow> float" where
  "fmul R (Finite x) (Finite y) = R (x * y)"
| "fmul R _ _ = NonFinite"

text \<open>Division by zero gives an infinity or a NaN.\<close>

fun fdiv :: "rounding \<Rightarrow> float \<Rightarrow> float \<Rightarrow> float" where
  "fdiv R (Finite x) (Finite y) = (if y = 0 then NonFinite else R (x / y))"
| "fdiv R _ _ = NonFinite"

text \<open>\<^verbatim>\<open>std::log\<close> and \<^verbatim>\<open>std::log10\<close>: minus infinity at zero, NaN below.\<close>

fun flog :: "rounding \<Rightarrow> float \<Rightarrow> float" where
  "flog R (Finite x) = (if 0 < x then R (ln x) else NonFinite)"
| "flog R NonFinite = NonFinite"

fun flog10 :: "rounding \<Rightarrow> float \<Rightarrow> float" where
  "flog10 R (Finite x) = (if 0 < x then R (log 10 x) else NonFinite)"
| "flog10 R NonFinite = NonFinite"

text \<open>
  \<^verbatim>\<open>std::pow\<close>: \<open>pow(x, 0)\<close> is 1; a positive base takes any exponent; a zero base
  gives 0 for a positive exponent and an infinity for a negative one; a negative base is
  defined for integral exponents only and gives NaN otherwise.
\<close>

fun fpow :: "rounding \<Rightarrow> float \<Rightarrow> float \<Rightarrow> float" where
  "fpow R (Finite x) (Finite y) =
     (if y = 0 then Finite 1
      else if 0 < x then R (x powr y)
      else if x = 0 then (if 0 < y then Finite 0 else NonFinite)
      else if y \<in> \<int> then R (x powi \<lfloor>y\<rfloor>)
      else NonFinite)"
| "fpow R _ _ = NonFinite"

text \<open>
  Modelled from the spec: the helper \<^verbatim>\<open>clamp(v, lo, hi)\<close> is declared outside the
  operator's file; the spec says that \<^verbatim>\<open>process\<close> "clamps the final float to [0,255]".
\<close>

fun clamp :: "float \<Rightarrow> float \<Rightarrow> float \<Rightarrow> float" where
  "clamp (Finite v) (Finite lo) (Finite hi) = Finite (min (max v lo) hi)"
| "clamp _ _ _ = NonFinite"

subsection \<open>Failures\<close>

text \<open>
  \<open>OutOfRange\<close> is the \<^verbatim>\<open>std::out_of_range\<close> that \<^verbatim>\<open>std::map::at\<close> throws for a
  missing key. \<open>Undefined\<close> stands for behaviour that C++ leaves undefined: overflow of
  a signed \<^verbatim>\<open>int\<close> product and the conversion to \<^verbatim>\<open>uint8_t\<close> of a value that is
  not a finite number inside the range of the type.
\<close>

datatype error = OutOfRange | Undefined

definition bind_r :: "error + 'a \<Rightarrow> ('a \<Rightarrow> error + 'b) \<Rightarrow> error + 'b" where
  "bind_r m f = (case m of Inl e \<Rightarrow> Inl e | Inr x \<Rightarrow> f x)"

text \<open>The cast \<^verbatim>\<open>(uint8_t) x\<close> of a float truncates toward zero.\<close>

fun to_uint8 :: "float \<Rightarrow> error + 8 word" where
  "to_uint8 (Finite x) =
     (if - 1 < x \<and> x < 256 then Inr (word_of_int (if 0 \<le> x then \<lfloor>x\<rfloor> else \<lceil>x\<rceil>))
      else Inl Undefined)"
| "to_uint8 NonFinite = Inl Undefined"

text \<open>The product of two \<^verbatim>\<open>int\<close> values (32 bits, signed).\<close>

definition int_mul :: "int \<Rightarrow> int \<Rightarrow> error + int" where
  "int_mul m n =
     (if - (2 ^ 31) \<le> m * n \<and> m * n < 2 ^ 31 then Inr (m * n) else Inl Undefined)"

section \<open>Data model\<close>

text \<open>
  Modelled from the spec: \<^verbatim>\<open>Parameter\<close>, \<^verbatim>\<open>TonemapOperator\<close> and \<^verbatim>\<open>Image\<close> are
  declared in headers outside the operator's file. A parameter has two construction forms,
  the bounded control (value, minimum, maximum, short label, description) and the computed
  form (value and label only). The operator owns a name, a description, a shader program
  and a mapping from keys to parameters. An image supplies its size (width, height), its
  pixels by (row, column), its log-average luminance and its maximum luminance.
\<close>

datatype Parameter =
    Parameter float float float string string
  | Computed float string

fun param_value :: "Parameter \<Rightarrow> float" where
  "param_value (Parameter v lo hi label descr) = v"
| "param_value (Computed v label) = v"

datatype Color3f = Color3f float float float

record GLShader =
  shader_name :: string
  vertex_source :: "string list"
  fragment_source :: "string list"

record TonemapOperator =
  name :: string
  description :: string
  shader :: GLShader
  parameters :: "string \<rightharpoonup> Parameter"

record Image =
  getSize :: "int \<times> int"
  ref :: "int \<Rightarrow> int \<Rightarrow> Color3f"
  getLogAverageLuminance :: float
  getMaximumLuminance :: float

text \<open>\<^verbatim>\<open>parameters.at(key)\<close> throws when the key is missing.\<close>

definition params_at :: "(string \<rightharpoonup> Parameter) \<Rightarrow> string \<Rightarrow> error + Parameter" where
  "params_at ps key = (case ps key of None \<Rightarrow> Inl OutOfRange | Some p \<Rightarrow> Inr p)"

section \<open>The Drago operator\<close>

subsection \<open>Construction\<close>

text \<open>
  The constructor stores the five static parameters (each with its value, range, label and
  description), the name, the description and the shader program. The shader sources are
  kept line by line.
\<close>

definition vertex_shader :: "string list" where
  "vertex_shader =
    [''#version 330'',
     ''in vec2 position;'',
     ''out vec2 uv;'',
     ''void main() {'',
     ''    gl_Position = vec4(position.x*2-1, position.y*2-1, 0.0, 1.0);'',
     ''    uv = vec2(position.x, 1-position.y);'',
     ''}'']"

definition fragment_shader :: "string list" where
  "fragment_shader =
    [''#version 330'',
     ''uniform sampler2D source;'',
     ''uniform float exposure;'',
     ''uniform float gamma;'',
     ''uniform float Ldmax;'',
     ''uniform float Lwa;'',
     ''uniform float Lwmax;'',
     ''uniform float b;'',
     ''uniform float slope;'',
     ''uniform float start;'',
     ''in vec2 uv;'',
     ''out vec4 out_color;'',
     '''',
     ''vec4 clampedValue(vec4 color) {'',
     ''  color.a = 1.0;'',
     ''  return clamp(color, 0.0, 1.0);'',
     ''}'',
     '''',
     ''float gammaCorrect(float v) {'',
     ''  if (v <= start) {'',
     ''    return slope * v;'',
     ''  }'',
     ''  else {'',
     ''    return pow(1.099 * v, 0.9/gamma) - 0.099;'',
     ''  }'',
     ''}'',
     '''',
     ''void main() {'',
     ''  float LwaP = exposure * Lwa / pow(1.0 + b - 0.85, 5);'',
     ''  float LwmaxP = exposure * Lwmax / LwaP;'',
     ''    vec4 color = exposure * texture(source, uv) / LwaP;'',
     ''  float exponent = log(b) / log(0.5);'',
     ''  float c1 = (0.01 * Ldmax) / (log(1 + LwmaxP)/log(10.0));'',
     ''  vec4 c2 = log(color + 1) / log(2.0 + 8 * (pow(color / LwmaxP, vec4(exponent))));'',
     ''  color = c1 * c2;'',
     ''  color = clampedValue(color);'',
     ''  out_color = vec4(gammaCorrect(color.r), gammaCorrect(color.g), gammaCorrect(color.b), 1.0);'',
     ''}'']"

definition Gamma_parameter :: "rounding \<Rightarrow> Parameter" where
  "Gamma_parameter R =
     Parameter (flit R 2.2) (flit R 0) (flit R 10) ''gamma'' ''Gamma correction value''"

definition slope_parameter :: "rounding \<Rightarrow> Parameter" where
  "slope_parameter R =
     Parameter (flit R 4.5) (flit R 0) (flit R 10) ''slope''
       (''Additional Gamma correction parameter:'' @ [CHR 0x0A]
          @ ''Elevation ratio of the line passing by the origin and tangent to the curve.'')"

definition start_parameter :: "rounding \<Rightarrow> Parameter" where
  "start_parameter R =
     Parameter (flit R 0.018) (flit R 0) (flit R 2) ''start''
       (''Additional Gamma correction parameter:'' @ [CHR 0x0A]
          @ ''Abscissa the the point of tangency.'')"

definition Ldmax_parameter :: "rounding \<Rightarrow> Parameter" where
  "Ldmax_parameter R =
     Parameter (flit R 100) (flit R 0) (flit R 200) ''Ldmax''
       ''Maximum luminance capability of the display (cd/m^2)''"

definition b_parameter :: "rounding \<Rightarrow> Parameter" where
  "b_parameter R = Parameter (flit R 0.85) (flit R 0) (flit R 1) ''b'' ''Bias function parameter''"

definition DragoOperator :: "rounding \<Rightarrow> TonemapOperator" where
  "DragoOperator R =
     \<lparr> name = ''Drago'',
       description =
         ''Drago Mapping'' @ [CHR 0x0A, CHR 0x0A] @ ''Propsed in '' @ [CHR 0x22]
           @ ''Adaptive Logarithmic Mapping For Displaying High Contrast Scenes'' @ [CHR 0x22]
           @ '' by Drago et al. 2003.'',
       shader = \<lparr> shader_name = ''Drago'', vertex_source = vertex_shader,
                  fragment_source = fragment_shader \<rparr>,
       parameters =
         [''Gamma'' \<mapsto> Gamma_parameter R,
          ''slope'' \<mapsto> slope_parameter R,
          ''start'' \<mapsto> start_parameter R,
          ''Ldmax'' \<mapsto> Ldmax_parameter R,
          ''b'' \<mapsto> b_parameter R] \<rparr>"

subsection \<open>\<^verbatim>\<open>setParameters\<close>\<close>

definition setParameters :: "TonemapOperator \<Rightarrow> Image \<Rightarrow> TonemapOperator" where
  "setParameters op img =
     op \<lparr> parameters :=
            ((parameters op)
               (''Lwa'' \<mapsto> Computed (getLogAverageLuminance img) ''Lwa''))
               (''Lwmax'' \<mapsto> Computed (getMaximumLuminance img) ''Lwmax'') \<rparr>"

subsection \<open>\<^verbatim>\<open>map\<close>\<close>

text \<open>
  The source reassigns its arguments \<^verbatim>\<open>Lwa\<close> and \<^verbatim>\<open>Lwmax\<close> and its local
  \<^verbatim>\<open>value\<close>; the reassigned variables carry a prime here. A comparison with a NaN is
  not followed by the model.
\<close>

definition map_drago ::
  "rounding \<Rightarrow> float \<Rightarrow> float \<Rightarrow> float \<Rightarrow> float \<Rightarrow> float \<Rightarrow> float \<Rightarrow> float \<Rightarrow> float \<Rightarrow> float
     \<Rightarrow> float" where
  "map_drago R v exposure gamma Ldmax Lwa Lwmax b start slope =
     (let Lwa' = fdiv R (fmul R exposure Lwa)
                   (fpow R (fsub R (fadd R (flit R 1) b) (flit R 0.85)) (flit R 5));
          Lwmax' = fdiv R (fmul R exposure Lwmax) Lwa';
          value = fdiv R (fmul R exposure v) Lwa';
          exponent = fdiv R (flog R b) (flog R (flit R 0.5));
          c1 = fdiv R (fmul R (flit R 0.01) Ldmax) (flog10 R (fadd R (flit R 1) Lwmax'));
          c2 = fdiv R (flog R (fadd R (flit R 1) value))
                 (flog R (fadd R (flit R 2)
                    (fmul R (flit R 8) (fpow R (fdiv R value Lwmax') exponent))));
          value' = fmul R c1 c2
      in case (value', start) of
           (Finite x, Finite s) \<Rightarrow>
             if x \<le> s then fmul R slope value'
             else fsub R (fpow R (fmul R (flit R 1.099) value') (fdiv R (flit R 0.9) gamma))
                    (flit R 0.099)
         | _ \<Rightarrow> NonFinite)"

subsection \<open>\<^verbatim>\<open>graph\<close>\<close>

definition graph :: "rounding \<Rightarrow> TonemapOperator \<Rightarrow> float \<Rightarrow> error + float" where
  "graph R op v =
     bind_r (params_at (parameters op) ''Gamma'') (\<lambda>gamma.
     bind_r (params_at (parameters op) ''Ldmax'') (\<lambda>Ldmax.
     bind_r (params_at (parameters op) ''Lwa'') (\<lambda>Lwa.
     bind_r (params_at (parameters op) ''Lwmax'') (\<lambda>Lwmax.
     bind_r (params_at (parameters op) ''b'') (\<lambda>b.
     bind_r (params_at (parameters op) ''start'') (\<lambda>start.
     bind_r (params_at (parameters op) ''slope'') (\<lambda>slope.
       Inr (map_drago R v (flit R 1) (param_value gamma) (param_value Ldmax) (param_value Lwa)
              (param_value Lwmax) (param_value b) (param_value start)
              (param_value slope)))))))))"

subsection \<open>\<^verbatim>\<open>process\<close>\<close>

text \<open>
  The destination is a region of memory, a map from byte offsets to bytes, and the pointer
  \<^verbatim>\<open>dst\<close> is an offset into it that advances by 3 after every pixel. The caller
  guarantees the capacity, so the region has no end here. The progress sink is the third
  component of the state.
\<close>

record process_state =
  buffer :: "nat \<Rightarrow> 8 word"
  dst :: nat
  progress :: float

text \<open>The seven locals read from the parameter map before the loops, in the order
  \<^verbatim>\<open>gamma, Ldmax, Lwa, Lwmax, b, start, slope\<close>.\<close>

type_synonym drago_values = "float \<times> float \<times> float \<times> float \<times> float \<times> float \<times> float"

text \<open>The body of the inner loop, for the pixel in row \<open>i\<close> and column \<open>j\<close>.\<close>

definition pixel ::
  "rounding \<Rightarrow> Image \<Rightarrow> float \<Rightarrow> drago_values \<Rightarrow> float \<Rightarrow> int \<Rightarrow> int \<Rightarrow> process_state
     \<Rightarrow> error + process_state" where
  "pixel R img exposure vals delta i j s =
     (case vals of (gamma, Ldmax, Lwa, Lwmax, b, start, slope) \<Rightarrow>
      case ref img i j of Color3f color_r color_g color_b \<Rightarrow>
      let colorR = map_drago R color_r exposure gamma Ldmax Lwa Lwmax b start slope;
          colorG = map_drago R color_g exposure gamma Ldmax Lwa Lwmax b start slope;
          colorB = map_drago R color_b exposure gamma Ldmax Lwa Lwmax b start slope
      in bind_r (to_uint8 (clamp (fmul R (flit R 255) colorR) (flit R 0) (flit R 255))) (\<lambda>d0.
         bind_r (to_uint8 (clamp (fmul R (flit R 255) colorG) (flit R 0) (flit R 255))) (\<lambda>d1.
         bind_r (to_uint8 (clamp (fmul R (flit R 255) colorB) (flit R 0) (flit R 255))) (\<lambda>d2.
           Inr \<lparr> buffer = (buffer s)(dst s := d0, dst s + 1 := d1, dst s + 2 := d2),
                 dst = dst s + 3,
                 progress = fadd R (progress s) delta \<rparr>))))"

text \<open>The inner loop over the columns \<open>j\<close> of row \<open>i\<close>; the size is (width, height).\<close>

function columns ::
  "rounding \<Rightarrow> Image \<Rightarrow> float \<Rightarrow> drago_values \<Rightarrow> float \<Rightarrow> int \<Rightarrow> int \<Rightarrow> process_state
     \<Rightarrow> error + process_state" where
  "columns R img exposure vals delta i j s =
     (if j < fst (getSize img) then
        (case pixel R img exposure vals delta i j s of
           Inl e \<Rightarrow> Inl e
         | Inr s' \<Rightarrow> columns R img exposure vals delta i (j + 1) s')
      else Inr s)"
  by pat_completeness auto
termination
  by (relation "measure (\<lambda>(R, img, exposure, vals, delta, i, j, s). nat (fst (getSize img) - j))")
     auto

text \<open>The outer loop over the rows \<open>i\<close>.\<close>

function rows ::
  "rounding \<Rightarrow> Image \<Rightarrow> float \<Rightarrow> drago_values \<Rightarrow> float \<Rightarrow> int \<Rightarrow> process_state
     \<Rightarrow> error + process_state" where
  "rows R img exposure vals delta i s =
     (if i < snd (getSize img) then
        (case columns R img exposure vals delta i 0 s of
           Inl e \<Rightarrow> Inl e
         | Inr s' \<Rightarrow> rows R img exposure vals delta (i + 1) s')
      else Inr s)"
  by pat_completeness auto
termination
  by (relation "measure (\<lambda>(R, img, exposure, vals, delta, i, s). nat (snd (getSize img) - i))")
     auto

text \<open>
  \<^verbatim>\<open>process\<close> zeroes the sink, computes \<^verbatim>\<open>delta\<close> from the \<^verbatim>\<open>int\<close> product of
  the sizes, reads the seven parameters and runs the loops. \<open>mem\<close> is the content of the
  destination region at the call.
\<close>

definition process ::
  "rounding \<Rightarrow> TonemapOperator \<Rightarrow> Image \<Rightarrow> (nat \<Rightarrow> 8 word) \<Rightarrow> float \<Rightarrow> error + process_state" where
  "process R op img mem exposure =
     (let sz = getSize img;
          progress0 = flit R 0
      in bind_r (int_mul (fst sz) (snd sz)) (\<lambda>n.
         let delta = fdiv R (flit R 1) (float_of_int R n)
         in bind_r (params_at (parameters op) ''Gamma'') (\<lambda>gamma.
            bind_r (params_at (parameters op) ''Ldmax'') (\<lambda>Ldmax.
            bind_r (params_at (parameters op) ''Lwa'') (\<lambda>Lwa.
            bind_r (params_at (parameters op) ''Lwmax'') (\<lambda>Lwmax.
            bind_r (params_at (parameters op) ''b'') (\<lambda>b.
            bind_r (params_at (parameters op) ''start'') (\<lambda>start.
            bind_r (params_at (parameters op) ''slope'') (\<lambda>slope.
              rows R img exposure
                (param_value gamma, param_value Ldmax, param_value Lwa, param_value Lwmax,
                 param_value b, param_value start, param_value slope)
                delta 0
                \<lparr> buffer = mem, dst = 0, progress = progress0 \<rparr>)))))))))"

subsection \<open>The fragment shader\<close>

text \<open>
  The fragment stage, transliterated. A \<^verbatim>\<open>vec4\<close> has the components r, g, b, a and
  the operators of GLSL act on each component. GLSL leaves \<^verbatim>\<open>pow(x, y)\<close> undefined for
  a negative \<open>x\<close> and for a zero \<open>x\<close> with \<open>y \<le> 0\<close>; \<^verbatim>\<open>log\<close> is the natural
  logarithm; \<^verbatim>\<open>clamp(x, lo, hi)\<close> is \<open>min (max x lo) hi\<close>.
\<close>

datatype vec4 = vec4 float float float float

fun vmap :: "(float \<Rightarrow> float) \<Rightarrow> vec4 \<Rightarrow> vec4" where
  "vmap f (vec4 x y z w) = vec4 (f x) (f y) (f z) (f w)"

fun vzip :: "(float \<Rightarrow> float \<Rightarrow> float) \<Rightarrow> vec4 \<Rightarrow> vec4 \<Rightarrow> vec4" where
  "vzip f (vec4 x y z w) (vec4 x' y' z' w') = vec4 (f x x') (f y y') (f z z') (f w w')"

fun glsl_pow :: "rounding \<Rightarrow> float \<Rightarrow> float \<Rightarrow> float" where
  "glsl_pow R (Finite x) (Finite y) =
     (if 0 < x then R (x powr y) else if x = 0 \<and> 0 < y then Finite 0 else NonFinite)"
| "glsl_pow R _ _ = NonFinite"

fun glsl_clamp :: "float \<Rightarrow> float \<Rightarrow> float \<Rightarrow> float" where
  "glsl_clamp (Finite x) (Finite lo) (Finite hi) = Finite (min (max x lo) hi)"
| "glsl_clamp _ _ _ = NonFinite"

definition clampedValue :: "rounding \<Rightarrow> vec4 \<Rightarrow> vec4" where
  "clampedValue R color =
     (case color of vec4 x y z w \<Rightarrow>
        vmap (\<lambda>c. glsl_clamp c (flit R 0) (flit R 1)) (vec4 x y z (flit R 1)))"

definition gammaCorrect :: "rounding \<Rightarrow> float \<Rightarrow> float \<Rightarrow> float \<Rightarrow> float \<Rightarrow> float" where
  "gammaCorrect R gamma start slope v =
     (case (v, start) of
        (Finite x, Finite s) \<Rightarrow>
          if x \<le> s then fmul R slope v
          else fsub R (glsl_pow R (fmul R (flit R 1.099) v) (fdiv R (flit R 0.9) gamma))
                 (flit R 0.099)
      | _ \<Rightarrow> NonFinite)"

text \<open>\<open>texel\<close> is the value of \<^verbatim>\<open>texture(source, uv)\<close>; the result is \<^verbatim>\<open>out_color\<close>.\<close>

definition fragment_main ::
  "rounding \<Rightarrow> float \<Rightarrow> float \<Rightarrow> float \<Rightarrow> float \<Rightarrow> float \<Rightarrow> float \<Rightarrow> float \<Rightarrow> float \<Rightarrow> vec4 \<Rightarrow> vec4" where
  "fragment_main R exposure gamma Ldmax Lwa Lwmax b start slope texel =
     (let LwaP = fdiv R (fmul R exposure Lwa)
                   (glsl_pow R (fsub R (fadd R (flit R 1) b) (flit R 0.85)) (flit R 5));
          LwmaxP = fdiv R (fmul R exposure Lwmax) LwaP;
          color = vmap (\<lambda>c. fdiv R c LwaP) (vmap (fmul R exposure) texel);
          exponent = fdiv R (flog R b) (flog R (flit R 0.5));
          c1 = fdiv R (fmul R (flit R 0.01) Ldmax)
                 (fdiv R (flog R (fadd R (flit R 1) LwmaxP)) (flog R (flit R 10)));
          c2 = vzip (fdiv R)
                 (vmap (flog R) (vmap (\<lambda>c. fadd R c (flit R 1)) color))
                 (vmap (flog R)
                    (vmap (fadd R (flit R 2))
                       (vmap (fmul R (flit R 8))
                          (vzip (glsl_pow R) (vmap (\<lambda>c. fdiv R c LwmaxP) color)
                             (vec4 exponent exponent exponent exponent)))));
          color' = vmap (fmul R c1) c2;
          color'' = clampedValue R color'
      in case color'' of vec4 x y z w \<Rightarrow>
           vec4 (gammaCorrect R gamma start slope x) (gammaCorrect R gamma start slope y)
             (gammaCorrect R gamma start slope z) (flit R 1))"

section \<open>The algorithm as the specification words it\<close>

text \<open>
  The eight steps of the adaptive logarithmic mapping, in the arithmetic of the code
  (the specification: "all arithmetic is single-precision floating point"). The fifth power
  of step 1 is the power with a natural exponent, rounded once.
\<close>

fun fpower :: "rounding \<Rightarrow> float \<Rightarrow> nat \<Rightarrow> float" where
  "fpower R (Finite x) n = R (x ^ n)"
| "fpower R NonFinite n = NonFinite"

definition spec_step1 :: "rounding \<Rightarrow> float \<Rightarrow> float \<Rightarrow> float \<Rightarrow> float" where
  "spec_step1 R exposure Lwa b =
     fdiv R (fmul R exposure Lwa) (fpower R (fsub R (fadd R (flit R 1) b) (flit R 0.85)) 5)"

definition spec_step2 :: "rounding \<Rightarrow> float \<Rightarrow> float \<Rightarrow> float \<Rightarrow> float" where
  "spec_step2 R exposure Lwmax Lwa' = fdiv R (fmul R exposure Lwmax) Lwa'"

definition spec_step3 :: "rounding \<Rightarrow> float \<Rightarrow> float \<Rightarrow> float \<Rightarrow> float" where
  "spec_step3 R exposure v Lwa' = fdiv R (fmul R exposure v) Lwa'"

definition spec_step4 :: "rounding \<Rightarrow> float \<Rightarrow> float" where
  "spec_step4 R b = fdiv R (flog R b) (flog R (flit R 0.5))"

definition spec_step5 :: "rounding \<Rightarrow> float \<Rightarrow> float \<Rightarrow> float" where
  "spec_step5 R Ldmax Lwmax' =
     fdiv R (fmul R (flit R 0.01) Ldmax) (flog10 R (fadd R (flit R 1) Lwmax'))"

definition spec_step6 :: "rounding \<Rightarrow> float \<Rightarrow> float \<Rightarrow> float \<Rightarrow> float" where
  "spec_step6 R val Lwmax' exponent =
     fdiv R (flog R (fadd R (flit R 1) val))
       (flog R (fadd R (flit R 2) (fmul R (flit R 8) (fpow R (fdiv R val Lwmax') exponent))))"

definition spec_step7 :: "rounding \<Rightarrow> float \<Rightarrow> float \<Rightarrow> float" where
  "spec_step7 R c1 c2 = fmul R c1 c2"

fun spec_step8 :: "rounding \<Rightarrow> float \<Rightarrow> float \<Rightarrow> float \<Rightarrow> float \<Rightarrow> float" where
  "spec_step8 R (Finite x) Gamma (Finite s) slope =
     (if x \<le> s then fmul R slope (Finite x)
      else fsub R (fpow R (fmul R (flit R 1.099) (Finite x)) (fdiv R (flit R 0.9) Gamma))
             (flit R 0.099))"
| "spec_step8 R _ Gamma _ slope = NonFinite"

definition drago_spec ::
  "rounding \<Rightarrow> float \<Rightarrow> float \<Rightarrow> float \<Rightarrow> float \<Rightarrow> float \<Rightarrow> float \<Rightarrow> float \<Rightarrow> float \<Rightarrow> float
     \<Rightarrow> float" where
  "drago_spec R v e Gamma Ldmax Lwa Lwmax b start slope =
     (let Lwa' = spec_step1 R e Lwa b;
          Lwmax' = spec_step2 R e Lwmax Lwa';
          val = spec_step3 R e v Lwa';
          exponent = spec_step4 R b;
          c1 = spec_step5 R Ldmax Lwmax';
          c2 = spec_step6 R val Lwmax' exponent
      in spec_step8 R (spec_step7 R c1 c2) Gamma start slope)"

text \<open>
  The quantisation that the specification gives for the agreement of \<^verbatim>\<open>process\<close> and
  \<^verbatim>\<open>graph\<close>: \<open>round(clamp(g, 0, 1) \<sqdot> 255)\<close>.
\<close>

fun spec_quantize :: "float \<Rightarrow> error + 8 word" where
  "spec_quantize (Finite g) = Inr (word_of_int (round (min (max g 0) 1 * 255)))"
| "spec_quantize NonFinite = Inl Undefined"

section \<open>Auxiliary notions for the statements\<close>

text \<open>The quantisation of \<^verbatim>\<open>process\<close>: the mapped value times 255 is clamped to
  [0, 255] and cast to a byte.\<close>

definition quantize :: "rounding \<Rightarrow> float \<Rightarrow> error + 8 word" where
  "quantize R g = to_uint8 (clamp (fmul R (flit R 255) g) (flit R 0) (flit R 255))"

text \<open>The byte that \<^verbatim>\<open>process\<close> stores for one colour channel \<open>c\<close> of a pixel.\<close>

definition channel_byte :: "rounding \<Rightarrow> float \<Rightarrow> drago_values \<Rightarrow> float \<Rightarrow> error + 8 word" where
  "channel_byte R exposure vals c =
     (case vals of (gamma, Ldmax, Lwa, Lwmax, b, start, slope) \<Rightarrow>
        quantize R (map_drago R c exposure gamma Ldmax Lwa Lwmax b start slope))"

text \<open>The three bytes of the pixel \<open>c\<close> lie in \<open>buf\<close> from offset \<open>off\<close> on, in the
  order R, G, B.\<close>

fun pixel_written ::
  "rounding \<Rightarrow> float \<Rightarrow> drago_values \<Rightarrow> Color3f \<Rightarrow> (nat \<Rightarrow> 8 word) \<Rightarrow> nat \<Rightarrow> bool" where
  "pixel_written R exposure vals (Color3f color_r color_g color_b) buf off =
     (channel_byte R exposure vals color_r = Inr (buf off)
      \<and> channel_byte R exposure vals color_g = Inr (buf (off + 1))
      \<and> channel_byte R exposure vals color_b = Inr (buf (off + 2)))"

text \<open>An image of the given size whose pixels all have the colour \<open>c\<close>, with the given
  statistics.\<close>

definition uniform_image :: "int \<Rightarrow> int \<Rightarrow> Color3f \<Rightarrow> float \<Rightarrow> float \<Rightarrow> Image" where
  "uniform_image w h c lwa lwmax =
     \<lparr> getSize = (w, h), ref = (\<lambda>i j. c),
       getLogAverageLuminance = lwa, getMaximumLuminance = lwmax \<rparr>"

text \<open>
  A one-pixel image with the value 9 in every channel, a destination region filled with
  zeros, and the operator as it is after construction (in exact arithmetic) and
  \<^verbatim>\<open>setParameters\<close> for an image whose log-average and maximum luminance are both 9.
\<close>

definition example_image :: Image where
  "example_image =
     uniform_image 1 1 (Color3f (Finite 9) (Finite 9) (Finite 9)) (Finite 9) (Finite 9)"

definition zero_memory :: "nat \<Rightarrow> 8 word" where
  "zero_memory k = 0"

definition example_operator :: TonemapOperator where
  "example_operator = setParameters (DragoOperator exact) example_image"

text \<open>The seven values that \<^verbatim>\<open>process\<close> reads from this operator, and the state in
  which it leaves the zero-filled destination for the example image at exposure 1.\<close>

definition example_values :: drago_values where
  "example_values =
     (Finite 2.2, Finite 100, Finite 9, Finite 9, Finite 0.85, Finite 0.018, Finite 4.5)"

definition example_result :: process_state where
  "example_result =
     \<lparr> buffer = zero_memory(0 := 239, 1 := 239, 2 := 239), dst = 3, progress = Finite 1 \<rparr>"

text \<open>
  An image of 8192 by 4096 black pixels, and the operator as it is after construction in
  single precision with the statistics 1 and 9 stored by \<^verbatim>\<open>setParameters\<close>.
\<close>

definition large_image :: Image where
  "large_image =
     uniform_image 8192 4096 (Color3f (Finite 0) (Finite 0) (Finite 0)) (Finite 1) (Finite 9)"

definition large_operator :: TonemapOperator where
  "large_operator = setParameters (DragoOperator binary32) large_image"

section \<open>Basic facts\<close>

declare columns.simps [simp del]
declare rows.simps [simp del]

lemma bind_r_Inr [simp]: "bind_r (Inr x) f = f x"
  by (simp add: bind_r_def)

lemma bind_r_Inl [simp]: "bind_r (Inl e) f = Inl e"
  by (simp add: bind_r_def)

lemma params_at_Some: "ps k = Some p \<Longrightarrow> params_at ps k = Inr p"
  by (simp add: params_at_def)

lemma params_at_None: "ps k = None \<Longrightarrow> params_at ps k = Inl OutOfRange"
  by (simp add: params_at_def)

lemma exact_simps [simp]:
  "flit exact c = Finite c"
  "float_of_int exact n = Finite (of_int n)"
  "exact x = Finite x"
  by (simp_all add: exact_def flit_def float_of_int_def)

lemma int_mul_zero: "m * n = 0 \<Longrightarrow> int_mul m n = Inr 0"
  by (auto simp: int_mul_def)

lemma default_parameter_values [simp]:
  "param_value (Gamma_parameter R) = flit R 2.2"
  "param_value (slope_parameter R) = flit R 4.5"
  "param_value (start_parameter R) = flit R 0.018"
  "param_value (Ldmax_parameter R) = flit R 100"
  "param_value (b_parameter R) = flit R 0.85"
  by (simp_all add: Gamma_parameter_def slope_parameter_def start_parameter_def
      Ldmax_parameter_def b_parameter_def)

lemma example_operator_parameters:
  "parameters example_operator ''Gamma'' = Some (Gamma_parameter exact)"
  "parameters example_operator ''Ldmax'' = Some (Ldmax_parameter exact)"
  "parameters example_operator ''Lwa'' = Some (Computed (Finite 9) ''Lwa'')"
  "parameters example_operator ''Lwmax'' = Some (Computed (Finite 9) ''Lwmax'')"
  "parameters example_operator ''b'' = Some (b_parameter exact)"
  "parameters example_operator ''start'' = Some (start_parameter exact)"
  "parameters example_operator ''slope'' = Some (slope_parameter exact)"
  by (simp_all add: example_operator_def example_image_def DragoOperator_def setParameters_def
      uniform_image_def)

section \<open>\<^verbatim>\<open>map\<close> and the algorithm of the specification\<close>

text \<open>\<^verbatim>\<open>std::pow\<close> with the exponent \<^verbatim>\<open>5.f\<close> is the fifth power, for every base.\<close>

lemma fpow_five:
  assumes "R 0 = Finite 0" and "R 5 = Finite 5"
  shows "fpow R x (flit R 5) = fpower R x 5"
proof (cases x)
  case (Finite a)
  consider "0 < a" | "a = 0" | "a < 0" by linarith
  then show ?thesis
  proof cases
    case 1
    then show ?thesis using assms Finite by (simp add: flit_def)
  next
    case 2
    then show ?thesis using assms Finite by (simp add: flit_def)
  next
    case 3
    then show ?thesis using assms Finite by (simp add: flit_def)
  qed
next
  case NonFinite
  then show ?thesis using assms by (simp add: flit_def)
qed

lemma spec_step8_eq:
  "spec_step8 R x Gamma s slope =
     (case (x, s) of
        (Finite a, Finite c) \<Rightarrow>
          if a \<le> c then fmul R slope x
          else fsub R (fpow R (fmul R (flit R 1.099) x) (fdiv R (flit R 0.9) Gamma))
                 (flit R 0.099)
      | _ \<Rightarrow> NonFinite)"
  by (cases x; cases s) simp_all

text \<open>
  C1. For every input value, exposure and parameter values the CPU function \<^verbatim>\<open>map\<close>
  computes the eight steps of the specification: the adapted average luminance, the adapted
  maximum luminance, the normalised sample, the bias exponent, the display constant, the
  compression term, their product, and the piecewise gamma correction with the linear
  branch for a value at or below \<open>start\<close>. It holds in every arithmetic whose rounding
  keeps the numbers 0 and 5, so in exact arithmetic and in single precision alike.
\<close>

theorem map_drago_is_spec_algorithm:
  assumes "R 0 = Finite 0" and "R 5 = Finite 5"
  shows "map_drago R v e Gamma Ldmax Lwa Lwmax b start slope
         = drago_spec R v e Gamma Ldmax Lwa Lwmax b start slope"
  unfolding map_drago_def drago_spec_def spec_step1_def spec_step2_def spec_step3_def
    spec_step4_def spec_step5_def spec_step6_def spec_step7_def spec_step8_eq
    fpow_five [OF assms] Let_def
  by (rule refl)

theorem map_drago_is_spec_algorithm_witness:
  "exact 0 = Finite 0 \<and> exact 5 = Finite 5
   \<and> map_drago exact (Finite 9) (Finite 1) (Finite 2.2) (Finite 100) (Finite 9) (Finite 9)
         (Finite 0.85) (Finite 0.018) (Finite 4.5)
       = drago_spec exact (Finite 9) (Finite 1) (Finite 2.2) (Finite 100) (Finite 9) (Finite 9)
           (Finite 0.85) (Finite 0.018) (Finite 4.5)"
proof -
  have h0: "exact 0 = Finite 0" and h5: "exact 5 = Finite 5"
    by simp_all
  show ?thesis
    using h0 h5
      map_drago_is_spec_algorithm [of exact "Finite 9" "Finite 1" "Finite 2.2" "Finite 100"
        "Finite 9" "Finite 9" "Finite 0.85" "Finite 0.018" "Finite 4.5", OF h0 h5]
    by simp
qed

section \<open>\<^verbatim>\<open>graph\<close>\<close>

text \<open>\<^verbatim>\<open>graph\<close> throws exactly when one of the seven keys is missing.\<close>

lemma graph_cases:
  "graph R op v =
     (case (parameters op ''Gamma'', parameters op ''Ldmax'', parameters op ''Lwa'',
            parameters op ''Lwmax'', parameters op ''b'', parameters op ''start'',
            parameters op ''slope'') of
        (Some pGamma, Some pLdmax, Some pLwa, Some pLwmax, Some pb, Some pstart, Some pslope) \<Rightarrow>
          Inr (map_drago R v (flit R 1) (param_value pGamma) (param_value pLdmax)
                 (param_value pLwa) (param_value pLwmax) (param_value pb)
                 (param_value pstart) (param_value pslope))
      | _ \<Rightarrow> Inl OutOfRange)"
  by (simp add: graph_def params_at_def split: option.splits)

text \<open>
  C3. For every input luminance and all values of the parameters stored in the operator,
  \<^verbatim>\<open>graph\<close> returns the result of \<^verbatim>\<open>map\<close> at exposure 1 with the stored values: the
  same function in the same arithmetic, and the result is passed on as it is, neither
  clamped nor quantised. The seven parameters have to be stored: \<^verbatim>\<open>at\<close> throws for a
  missing key.
\<close>

theorem graph_is_map_at_exposure_one:
  assumes "parameters op ''Gamma'' = Some pGamma"
    and "parameters op ''Ldmax'' = Some pLdmax"
    and "parameters op ''Lwa'' = Some pLwa"
    and "parameters op ''Lwmax'' = Some pLwmax"
    and "parameters op ''b'' = Some pb"
    and "parameters op ''start'' = Some pstart"
    and "parameters op ''slope'' = Some pslope"
  shows "graph R op v =
           Inr (map_drago R v (flit R 1) (param_value pGamma) (param_value pLdmax)
                  (param_value pLwa) (param_value pLwmax) (param_value pb)
                  (param_value pstart) (param_value pslope))"
  using assms by (simp add: graph_def params_at_Some)


theorem graph_is_map_at_exposure_one_witness:
  "parameters example_operator ''Gamma'' = Some (Gamma_parameter exact)
   \<and> parameters example_operator ''Ldmax'' = Some (Ldmax_parameter exact)
   \<and> parameters example_operator ''Lwa'' = Some (Computed (Finite 9) ''Lwa'')
   \<and> parameters example_operator ''Lwmax'' = Some (Computed (Finite 9) ''Lwmax'')
   \<and> parameters example_operator ''b'' = Some (b_parameter exact)
   \<and> parameters example_operator ''start'' = Some (start_parameter exact)
   \<and> parameters example_operator ''slope'' = Some (slope_parameter exact)
   \<and> graph exact example_operator (Finite 9)
     = Inr (map_drago exact (Finite 9) (Finite 1) (Finite 2.2) (Finite 100) (Finite 9)
              (Finite 9) (Finite 0.85) (Finite 0.018) (Finite 4.5))"
  using example_operator_parameters
    graph_is_map_at_exposure_one [of example_operator _ _ _ _ _ _ _ exact "Finite 9",
      OF example_operator_parameters]
  by simp

text \<open>In a state that lacks one of the seven keys, as the operator is before the first
  \<^verbatim>\<open>setParameters\<close>, \<^verbatim>\<open>graph\<close> throws.\<close>

lemma graph_before_setParameters: "graph R (DragoOperator R) v = Inl OutOfRange"
  by (simp add: graph_def DragoOperator_def params_at_def)

section \<open>\<^verbatim>\<open>setParameters\<close>\<close>

text \<open>
  C8. Every call of \<^verbatim>\<open>setParameters\<close> overwrites exactly the two entries \<open>Lwa\<close> and
  \<open>Lwmax\<close> of the parameter map, with the image's log-average luminance and maximum
  luminance in the computed form. Every other entry and the operator's name, description
  and shader stay as they are, and a later call replaces what an earlier call stored.
\<close>

theorem setParameters_frame:
  "parameters (setParameters op img) ''Lwa'' = Some (Computed (getLogAverageLuminance img) ''Lwa'')
   \<and> parameters (setParameters op img) ''Lwmax''
       = Some (Computed (getMaximumLuminance img) ''Lwmax'')
   \<and> (\<forall>key. key \<noteq> ''Lwa'' \<and> key \<noteq> ''Lwmax''
         \<longrightarrow> parameters (setParameters op img) key = parameters op key)
   \<and> name (setParameters op img) = name op
   \<and> description (setParameters op img) = description op
   \<and> shader (setParameters op img) = shader op
   \<and> setParameters (setParameters op img) img' = setParameters op img'"
  by (simp add: setParameters_def)

theorem setParameters_frame_witness:
  "''Gamma'' \<noteq> ''Lwa'' \<and> ''Gamma'' \<noteq> ''Lwmax''
   \<and> parameters (setParameters (DragoOperator exact) example_image) ''Gamma''
       = parameters (DragoOperator exact) ''Gamma''
   \<and> parameters (setParameters (DragoOperator exact) example_image) ''Lwa''
       = Some (Computed (Finite 9) ''Lwa'')
   \<and> parameters (setParameters (DragoOperator exact) example_image) ''Lwmax''
       = Some (Computed (Finite 9) ''Lwmax'')"
proof -
  have h: "''Gamma'' \<noteq> ''Lwa'' \<and> ''Gamma'' \<noteq> ''Lwmax''"
    by simp
  have l: "getLogAverageLuminance example_image = Finite 9"
    and m: "getMaximumLuminance example_image = Finite 9"
    by (simp_all add: example_image_def uniform_image_def)
  show ?thesis
    using h l m setParameters_frame [of "DragoOperator exact" example_image example_image]
    by metis
qed

section \<open>The loops of \<^verbatim>\<open>process\<close>\<close>


lemma bind_r_eq_Inr: "bind_r m f = Inr y \<longleftrightarrow> (\<exists>x. m = Inr x \<and> f x = Inr y)"
  by (cases m) simp_all

lemma pixel_written_cong:
  assumes "buf off = buf' off" and "buf (off + 1) = buf' (off + 1)"
    and "buf (off + 2) = buf' (off + 2)"
  shows "pixel_written R exposure vals c buf off = pixel_written R exposure vals c buf' off"
  using assms by (cases c) simp

lemma pixel_Inr:
  assumes "pixel R img exposure vals delta i j s = Inr s'"
  shows "dst s' = dst s + 3"
    and "progress s' = fadd R (progress s) delta"
    and "\<And>k. k < dst s \<or> dst s + 3 \<le> k \<Longrightarrow> buffer s' k = buffer s k"
    and "pixel_written R exposure vals (ref img i j) (buffer s') (dst s)"
proof -
  obtain gamma Ldmax Lwa Lwmax b start slope
    where vals: "vals = (gamma, Ldmax, Lwa, Lwmax, b, start, slope)"
    by (cases vals) auto
  obtain cr cg cb where c: "ref img i j = Color3f cr cg cb"
    by (cases "ref img i j") auto
  from assms obtain d0 d1 d2 where
    d0: "channel_byte R exposure vals cr = Inr d0" and
    d1: "channel_byte R exposure vals cg = Inr d1" and
    d2: "channel_byte R exposure vals cb = Inr d2" and
    s': "s' = \<lparr> buffer = (buffer s)(dst s := d0, dst s + 1 := d1, dst s + 2 := d2),
                 dst = dst s + 3, progress = fadd R (progress s) delta \<rparr>"
    unfolding pixel_def channel_byte_def quantize_def vals c
    by (auto simp: bind_r_eq_Inr Let_def)
  show "dst s' = dst s + 3" by (simp add: s')
  show "progress s' = fadd R (progress s) delta" by (simp add: s')
  show "buffer s' k = buffer s k" if "k < dst s \<or> dst s + 3 \<le> k" for k
    using that by (auto simp: s')
  show "pixel_written R exposure vals (ref img i j) (buffer s') (dst s)"
    by (simp add: c s' d0 d1 d2)
qed

lemma columns_inv:
  assumes "columns R img exposure vals delta i j s = Inr s'"
  shows "dst s' = dst s + 3 * nat (fst (getSize img) - j)
    \<and> progress s' = ((\<lambda>p. fadd R p delta) ^^ nat (fst (getSize img) - j)) (progress s)
    \<and> (\<forall>k. k < dst s \<or> dst s + 3 * nat (fst (getSize img) - j) \<le> k
           \<longrightarrow> buffer s' k = buffer s k)
    \<and> (\<forall>j'. j \<le> j' \<and> j' < fst (getSize img)
           \<longrightarrow> pixel_written R exposure vals (ref img i j') (buffer s')
                 (dst s + 3 * nat (j' - j)))"
  using assms
proof (induction R img exposure vals delta i j s rule: columns.induct)
  case (1 R img exposure vals delta i j s)
  let ?w = "fst (getSize img)"
  show ?case
  proof (cases "j < ?w")
    case False
    then have "s' = s"
      using "1.prems" by (simp add: columns.simps [of R img exposure vals delta i j s])
    then show ?thesis using False by auto
  next
    case True
    then obtain s1 where p: "pixel R img exposure vals delta i j s = Inr s1"
      and rest: "columns R img exposure vals delta i (j + 1) s1 = Inr s'"
      using "1.prems"
      by (auto simp: columns.simps [of R img exposure vals delta i j s] split: sum.splits)
    note P = pixel_Inr [OF p]
    note IH = "1.IH" [OF True p rest]
    have n: "nat (?w - j) = Suc (nat (?w - (j + 1)))"
      using True by simp
    have a: "dst s' = dst s + 3 * nat (?w - j)"
      using IH P(1) n by simp
    have "((\<lambda>p. fadd R p delta) ^^ nat (?w - j)) (progress s)
            = ((\<lambda>p. fadd R p delta) ^^ nat (?w - (j + 1))) (fadd R (progress s) delta)"
      unfolding n funpow_Suc_right by simp
    then have b: "progress s' = ((\<lambda>p. fadd R p delta) ^^ nat (?w - j)) (progress s)"
      using IH P(2) by simp
    have c: "buffer s' k = buffer s k" if "k < dst s \<or> dst s + 3 * nat (?w - j) \<le> k" for k
    proof -
      have "k < dst s1 \<or> dst s1 + 3 * nat (?w - (j + 1)) \<le> k"
        using that P(1) n by auto
      then have "buffer s' k = buffer s1 k" using IH by blast
      moreover have "k < dst s \<or> dst s + 3 \<le> k"
        using that n by auto
      ultimately show ?thesis using P(3) by simp
    qed
    have d: "pixel_written R exposure vals (ref img i j') (buffer s') (dst s + 3 * nat (j' - j))"
      if "j \<le> j' \<and> j' < ?w" for j'
    proof (cases "j' = j")
      case True
      have "buffer s' k = buffer s1 k" if "k < dst s1" for k
        using IH that by blast
      then have "buffer s' (dst s) = buffer s1 (dst s)"
        "buffer s' (dst s + 1) = buffer s1 (dst s + 1)"
        "buffer s' (dst s + 2) = buffer s1 (dst s + 2)"
        using P(1) by simp_all
      then show ?thesis
        using P(4) True pixel_written_cong [of "buffer s'" "dst s" "buffer s1"] by simp
    next
      case False
      then have j': "j + 1 \<le> j' \<and> j' < ?w" using that by simp
      then have "pixel_written R exposure vals (ref img i j') (buffer s')
                   (dst s1 + 3 * nat (j' - (j + 1)))"
        using IH by blast
      moreover have "nat (j' - j) = Suc (nat (j' - (j + 1)))"
        using j' by arith
      then have "dst s1 + 3 * nat (j' - (j + 1)) = dst s + 3 * nat (j' - j)"
        using P(1) by simp
      ultimately show ?thesis by simp
    qed
    show ?thesis using a b c d by blast
  qed
qed


lemma rows_inv:
  assumes "rows R img exposure vals delta i s = Inr s'" and "0 \<le> fst (getSize img)"
  shows "dst s' = dst s + 3 * (nat (fst (getSize img)) * nat (snd (getSize img) - i))
    \<and> progress s'
        = ((\<lambda>p. fadd R p delta) ^^ (nat (fst (getSize img)) * nat (snd (getSize img) - i)))
            (progress s)
    \<and> (\<forall>k. k < dst s
             \<or> dst s + 3 * (nat (fst (getSize img)) * nat (snd (getSize img) - i)) \<le> k
           \<longrightarrow> buffer s' k = buffer s k)
    \<and> (\<forall>i' j'. i \<le> i' \<and> i' < snd (getSize img) \<and> 0 \<le> j' \<and> j' < fst (getSize img)
           \<longrightarrow> pixel_written R exposure vals (ref img i' j') (buffer s')
                 (dst s + 3 * (nat (i' - i) * nat (fst (getSize img)) + nat j')))"
  using assms
proof (induction R img exposure vals delta i s rule: rows.induct)
  case (1 R img exposure vals delta i s)
  let ?w = "fst (getSize img)" and ?h = "snd (getSize img)"
  let ?W = "nat ?w"
  let ?f = "\<lambda>p. fadd R p delta"
  show ?case
  proof (cases "i < ?h")
    case False
    then have "s' = s"
      using "1.prems" by (simp add: rows.simps [of R img exposure vals delta i s])
    then show ?thesis using False by auto
  next
    case True
    then obtain s1 where c: "columns R img exposure vals delta i 0 s = Inr s1"
      and rest: "rows R img exposure vals delta (i + 1) s1 = Inr s'"
      using "1.prems"
      by (auto simp: rows.simps [of R img exposure vals delta i s] split: sum.splits)
    from columns_inv [OF c]
    have C1: "dst s1 = dst s + 3 * ?W"
      and C2: "progress s1 = (?f ^^ ?W) (progress s)"
      and C3: "\<And>k. k < dst s \<or> dst s + 3 * ?W \<le> k \<Longrightarrow> buffer s1 k = buffer s k"
      and C4: "\<And>j'. 0 \<le> j' \<and> j' < ?w
                \<Longrightarrow> pixel_written R exposure vals (ref img i j') (buffer s1) (dst s + 3 * nat j')"
      by auto
    note IH = "1.IH" [OF True c rest "1.prems"(2)]
    let ?m = "nat (?h - (i + 1))"
    have n: "nat (?h - i) = Suc ?m"
      using True by simp
    have a: "dst s' = dst s + 3 * (?W * nat (?h - i))"
      using IH C1 n by simp
    have e: "?W * nat (?h - i) = ?W * ?m + ?W"
      unfolding n by simp
    have "(?f ^^ (?W * nat (?h - i))) (progress s) = (?f ^^ (?W * ?m)) ((?f ^^ ?W) (progress s))"
      unfolding e funpow_add by (rule comp_apply)
    then have b: "progress s' = (?f ^^ (?W * nat (?h - i))) (progress s)"
      using IH C2 by simp
    have f: "buffer s' k = buffer s k" if "k < dst s \<or> dst s + 3 * (?W * nat (?h - i)) \<le> k" for k
    proof -
      have "k < dst s1 \<or> dst s1 + 3 * (?W * ?m) \<le> k"
        using that C1 n by auto
      then have "buffer s' k = buffer s1 k" using IH by blast
      moreover have "k < dst s \<or> dst s + 3 * ?W \<le> k"
        using that n by auto
      ultimately show ?thesis using C3 by simp
    qed
    have d: "pixel_written R exposure vals (ref img i' j') (buffer s')
               (dst s + 3 * (nat (i' - i) * ?W + nat j'))"
      if "i \<le> i' \<and> i' < ?h \<and> 0 \<le> j' \<and> j' < ?w" for i' j'
    proof (cases "i' = i")
      case True
      have "nat j' < ?W" using that by simp
      then have lt: "dst s + 3 * nat j' + 2 < dst s1"
        unfolding C1 by linarith
      have below: "buffer s' k = buffer s1 k" if "k < dst s1" for k
        using IH that by blast
      have "buffer s' (dst s + 3 * nat j') = buffer s1 (dst s + 3 * nat j')"
        "buffer s' (dst s + 3 * nat j' + 1) = buffer s1 (dst s + 3 * nat j' + 1)"
        "buffer s' (dst s + 3 * nat j' + 2) = buffer s1 (dst s + 3 * nat j' + 2)"
        using lt by (auto intro!: below)
      then have "pixel_written R exposure vals (ref img i j') (buffer s') (dst s + 3 * nat j')"
        using C4 [of j'] that
          pixel_written_cong [of "buffer s'" "dst s + 3 * nat j'" "buffer s1"] by simp
      then show ?thesis using True by simp
    next
      case False
      then have i': "i + 1 \<le> i' \<and> i' < ?h \<and> 0 \<le> j' \<and> j' < ?w" using that by simp
      then have pw: "pixel_written R exposure vals (ref img i' j') (buffer s')
                   (dst s1 + 3 * (nat (i' - (i + 1)) * ?W + nat j'))"
        using IH by blast
      have "nat (i' - i) = Suc (nat (i' - (i + 1)))"
        using i' by arith
      then have "dst s1 + 3 * (nat (i' - (i + 1)) * ?W + nat j')
                 = dst s + 3 * (nat (i' - i) * ?W + nat j')"
        using C1 by simp
      then show ?thesis using pw by (simp only:)
    qed
    show ?thesis using a b f d by blast
  qed
qed


lemma process_rows:
  assumes "parameters op ''Gamma'' = Some pGamma"
    and "parameters op ''Ldmax'' = Some pLdmax"
    and "parameters op ''Lwa'' = Some pLwa"
    and "parameters op ''Lwmax'' = Some pLwmax"
    and "parameters op ''b'' = Some pb"
    and "parameters op ''start'' = Some pstart"
    and "parameters op ''slope'' = Some pslope"
  shows "process R op img mem exposure =
           bind_r (int_mul (fst (getSize img)) (snd (getSize img))) (\<lambda>n.
             rows R img exposure
               (param_value pGamma, param_value pLdmax, param_value pLwa, param_value pLwmax,
                param_value pb, param_value pstart, param_value pslope)
               (fdiv R (flit R 1) (float_of_int R n)) 0
               \<lparr> buffer = mem, dst = 0, progress = flit R 0 \<rparr>)"
  using assms by (simp add: process_def Let_def params_at_Some)

lemma pixel_channel_bytes:
  "pixel R img exposure vals delta i j s =
     (case ref img i j of Color3f color_r color_g color_b \<Rightarrow>
        bind_r (channel_byte R exposure vals color_r) (\<lambda>d0.
        bind_r (channel_byte R exposure vals color_g) (\<lambda>d1.
        bind_r (channel_byte R exposure vals color_b) (\<lambda>d2.
          Inr \<lparr> buffer = (buffer s)(dst s := d0, dst s + 1 := d1, dst s + 2 := d2),
                dst = dst s + 3,
                progress = fadd R (progress s) delta \<rparr>))))"
  by (cases vals; cases "ref img i j") (simp add: pixel_def channel_byte_def quantize_def Let_def)

section \<open>\<^verbatim>\<open>process\<close> on an image without pixels\<close>

lemma rows_empty_width:
  "fst (getSize img) \<le> 0 \<Longrightarrow> rows R img exposure vals delta i s = Inr s"
proof (induction R img exposure vals delta i s rule: rows.induct)
  case (1 R img exposure vals delta i s)
  have c: "columns R img exposure vals delta i 0 s = Inr s"
    using "1.prems" by (simp add: columns.simps [of R img exposure vals delta i 0 s])
  show ?case
  proof (cases "i < snd (getSize img)")
    case True
    then show ?thesis
      using "1.IH" [OF True c "1.prems"] c
      by (simp add: rows.simps [of R img exposure vals delta i s])
  next
    case False
    then show ?thesis by (simp add: rows.simps [of R img exposure vals delta i s])
  qed
qed

lemma rows_empty_height:
  "snd (getSize img) \<le> i \<Longrightarrow> rows R img exposure vals delta i s = Inr s"
  by (simp add: rows.simps [of R img exposure vals delta i s])

text \<open>
  C10. For an image without pixels (width times height is 0) \<^verbatim>\<open>process\<close> sets the
  progress sink to 0, runs the loop body for no pixel, leaves the destination as it was and
  returns with the progress still 0, which is not 1. The operator has its seven parameters
  and the rounding keeps the number 0.
\<close>

theorem process_empty_image:
  assumes "fst (getSize img) * snd (getSize img) = 0"
    and "R 0 = Finite 0"
    and "parameters op ''Gamma'' = Some pGamma"
    and "parameters op ''Ldmax'' = Some pLdmax"
    and "parameters op ''Lwa'' = Some pLwa"
    and "parameters op ''Lwmax'' = Some pLwmax"
    and "parameters op ''b'' = Some pb"
    and "parameters op ''start'' = Some pstart"
    and "parameters op ''slope'' = Some pslope"
  shows "\<exists>s. process R op img mem exposure = Inr s
             \<and> buffer s = mem \<and> dst s = 0 \<and> progress s = Finite 0 \<and> progress s \<noteq> Finite 1"
proof -
  have "fst (getSize img) \<le> 0 \<or> snd (getSize img) \<le> 0"
    using assms(1) by auto
  then have r: "rows R img exposure vals delta 0 s = Inr s" for vals delta s
    using rows_empty_width rows_empty_height by blast
  show ?thesis
    using assms by (simp add: process_def Let_def int_mul_zero params_at_Some r flit_def)
qed

theorem process_empty_image_witness:
  "fst (getSize (uniform_image 0 7 (Color3f (Finite 1) (Finite 1) (Finite 1)) (Finite 1) (Finite 1)))
     * snd (getSize (uniform_image 0 7 (Color3f (Finite 1) (Finite 1) (Finite 1)) (Finite 1) (Finite 1)))
     = 0
   \<and> exact 0 = Finite 0
   \<and> (\<exists>s. process exact example_operator
             (uniform_image 0 7 (Color3f (Finite 1) (Finite 1) (Finite 1)) (Finite 1) (Finite 1))
             zero_memory (Finite 1) = Inr s
          \<and> buffer s = zero_memory \<and> dst s = 0 \<and> progress s = Finite 0)"
proof -
  let ?img = "uniform_image 0 7 (Color3f (Finite 1) (Finite 1) (Finite 1)) (Finite 1) (Finite 1)"
  have h: "fst (getSize ?img) * snd (getSize ?img) = 0"
    by (simp add: uniform_image_def)
  have z: "exact 0 = Finite 0"
    by simp
  show ?thesis
    using h z
      process_empty_image [of ?img exact example_operator _ _ _ _ _ _ _ zero_memory "Finite 1",
        OF h z example_operator_parameters]
    by blast
qed

section \<open>Evaluation in exact arithmetic\<close>

text \<open>Powers with a rational exponent are compared through integral powers.\<close>


lemma ln_half_nonzero: "ln (1 / 2 :: real) \<noteq> 0"
  by (simp add: ln_div)

lemma root_powr: 
  assumes "0 < (c::real)" and "0 < n"
  shows "(c ^ n) powr (1 / real n) = c"
proof -
  have "(c ^ n) powr (1 / real n) = (c powr real n) powr (1 / real n)"
    using assms by (simp add: powr_realpow)
  also have "\<dots> = c powr (real n * (1 / real n))"
    by (rule powr_powr)
  also have "\<dots> = c"
    using assms by simp
  finally show ?thesis .
qed

lemma powr_frac:
  assumes "0 < (a::real)" and "0 < n"
  shows "a powr (real m / real n) = (a ^ m) powr (1 / real n)"
proof -
  have "(a ^ m) powr (1 / real n) = (a powr real m) powr (1 / real n)"
    using assms by (simp add: powr_realpow)
  also have "\<dots> = a powr (real m * (1 / real n))"
    by (rule powr_powr)
  finally show ?thesis by simp
qed

lemma powr_frac_ge:
  assumes "0 < (a::real)" and "0 < c" and "0 < n" and "c ^ n \<le> a ^ m"
  shows "c \<le> a powr (real m / real n)"
proof -
  have "(c ^ n) powr (1 / real n) \<le> (a ^ m) powr (1 / real n)"
    using assms by (intro powr_mono2) simp_all
  then show ?thesis
    using assms by (simp add: root_powr powr_frac)
qed

lemma powr_frac_less:
  assumes "0 < (a::real)" and "0 < c" and "0 < n" and "a ^ m < c ^ n"
  shows "a powr (real m / real n) < c"
proof -
  have "(a ^ m) powr (1 / real n) < (c ^ n) powr (1 / real n)"
    using assms by (intro powr_less_mono2) simp_all
  then show ?thesis
    using assms by (simp add: root_powr powr_frac)
qed

lemma gamma_at_one_bounds:
  "1.0385 \<le> (1.099::real) powr (9 / 22)" "(1.099::real) powr (9 / 22) < 1.04"
proof -
  have "(1.0385::real) ^ 22 \<le> 1.099 ^ 9" by (simp add: power_divide)
  from powr_frac_ge [OF _ _ _ this] show "1.0385 \<le> (1.099::real) powr (9 / 22)" by simp
  have "(1.099::real) ^ 9 < 1.04 ^ 22" by (simp add: power_divide)
  from powr_frac_less [OF _ _ _ this] show "(1.099::real) powr (9 / 22) < 1.04" by simp
qed

lemma gamma_at_start_bound: "0.2 \<le> (0.019782::real) powr (9 / 22)"
proof -
  have "(0.2::real) ^ 22 \<le> 0.019782 ^ 9" by (simp add: power_divide)
  from powr_frac_ge [OF _ _ _ this] show ?thesis by simp
qed

lemma gamma_at_two_bound: "1.099 < (2.198::real) powr (9 / 22)"
proof -
  have "(1.0991::real) ^ 22 \<le> 2.198 ^ 9" by (simp add: power_divide)
  from powr_frac_ge [OF _ _ _ this] show ?thesis by simp
qed

text \<open>
  The example: the value 9 with the statistics 9 and 9 is compressed to 1 and gamma-corrected
  to \<open>1.099 powr (9 / 22) - 0.099\<close>, about 0.9404; times 255 this is about 239.8.
\<close>


lemma map_example:
  "map_drago exact (Finite 9) (Finite 1) (Finite 2.2) (Finite 100) (Finite 9) (Finite 9)
     (Finite 0.85) (Finite 0.018) (Finite 4.5) = Finite (1.099 powr (9 / 22) - 0.099)"
  by (simp add: map_drago_def Let_def ln_half_nonzero log_def)

lemma byte_of_example: "\<lfloor>255 * ((1.099::real) powr (9 / 22) - 0.099)\<rfloor> = 239"
  using gamma_at_one_bounds by (intro floor_unique) simp_all

lemma round_of_example: "round (min (max ((1.099::real) powr (9 / 22) - 0.099) 0) 1 * 255) = 240"
proof -
  let ?g = "(1.099::real) powr (9 / 22) - 0.099"
  have "min (max ?g 0) 1 = ?g"
    using gamma_at_one_bounds by simp
  moreover have "round (?g * 255) = 240"
    unfolding round_def using gamma_at_one_bounds by (intro floor_unique) simp_all
  ultimately show ?thesis by simp
qed

text \<open>In exact arithmetic the quantisation is the floor of the clamped product.\<close>

lemma quantize_exact:
  "quantize exact (Finite g) = Inr (word_of_int \<lfloor>min (max (255 * g) 0) 255\<rfloor>)"
proof -
  have "- 1 < min (max (255 * g) 0) 255" "min (max (255 * g) 0) 255 < 256"
    "0 \<le> min (max (255 * g) 0) 255"
    by simp_all
  then show ?thesis by (simp add: quantize_def)
qed

lemma channel_byte_example:
  "channel_byte exact (Finite 1)
     (Finite 2.2, Finite 100, Finite 9, Finite 9, Finite 0.85, Finite 0.018, Finite 4.5)
     (Finite 9) = Inr 239"
proof -
  let ?g = "(1.099::real) powr (9 / 22) - 0.099"
  have "min (max (255 * ?g) 0) 255 = 255 * ?g"
    using gamma_at_one_bounds by simp
  then have "word_of_int \<lfloor>min (max (255 * ?g) 0) 255\<rfloor> = (239 :: 8 word)"
    by (simp only: byte_of_example) simp
  then show ?thesis
    unfolding channel_byte_def prod.case map_example quantize_exact
    by (simp only:)
qed

lemma process_example_mem:
  "process exact example_operator example_image mem (Finite 1)
     = Inr \<lparr> buffer = mem(0 := 239, 1 := 239, 2 := 239), dst = 3, progress = Finite 1 \<rparr>"
proof -
  define vals :: drago_values
    where "vals = (Finite 2.2, Finite 100, Finite 9, Finite 9, Finite 0.85, Finite 0.018, Finite 4.5)"
  define s0 where "s0 = \<lparr> buffer = mem, dst = 0, progress = Finite 0 \<rparr>"
  define s1 where
    "s1 = \<lparr> buffer = mem(0 := 239, 1 := 239, 2 := 239), dst = 3, progress = Finite 1 \<rparr>"
  have sz: "getSize example_image = (1, 1)"
    and px: "ref example_image 0 0 = Color3f (Finite 9) (Finite 9) (Finite 9)"
    by (simp_all add: example_image_def uniform_image_def)
  have p: "pixel exact example_image (Finite 1) vals (Finite 1) 0 0 s0 = Inr s1"
    unfolding pixel_channel_bytes px Color3f.case vals_def channel_byte_example
    by (simp add: numeral_2_eq_2 s0_def s1_def)
  have c1: "columns exact example_image (Finite 1) vals (Finite 1) 0 1 s1 = Inr s1"
    by (simp add: columns.simps [of _ _ _ _ _ 0 1] sz)
  have c0: "columns exact example_image (Finite 1) vals (Finite 1) 0 0 s0 = Inr s1"
    by (simp add: columns.simps [of _ _ _ _ _ 0 0] sz p c1)
  have r1: "rows exact example_image (Finite 1) vals (Finite 1) 1 s1 = Inr s1"
    by (simp add: rows.simps [of _ _ _ _ _ 1] sz)
  have r0: "rows exact example_image (Finite 1) vals (Finite 1) 0 s0 = Inr s1"
    by (simp add: rows.simps [of _ _ _ _ _ 0] sz c0 r1)
  have m: "int_mul 1 1 = Inr 1"
    by (simp add: int_mul_def)
  have d: "fdiv exact (flit exact 1) (float_of_int exact 1) = Finite 1"
    by simp
  show ?thesis
    unfolding process_rows [OF example_operator_parameters] sz fst_conv snd_conv m
      default_parameter_values param_value.simps exact_simps(1) bind_r_Inr d
    using r0 unfolding vals_def s0_def s1_def by simp
qed

lemma process_example:
  "process exact example_operator example_image zero_memory (Finite 1) = Inr example_result"
  unfolding example_result_def by (rule process_example_mem)

lemma example_image_simps:
  "getSize example_image = (1, 1)"
  "ref example_image 0 0 = Color3f (Finite 9) (Finite 9) (Finite 9)"
  by (simp_all add: example_image_def uniform_image_def)

lemma graph_example:
  "graph exact example_operator (Finite 9) = Inr (Finite (1.099 powr (9 / 22) - 0.099))"
  unfolding graph_cases example_operator_parameters prod.case option.case
    default_parameter_values param_value.simps exact_simps map_example
  by (rule refl)

section \<open>The layout of the destination\<close>



section \<open>\<^verbatim>\<open>process\<close> against \<^verbatim>\<open>graph\<close> on one pixel\<close>




section \<open>Independence of the exposure in exact arithmetic\<close>

lemma adapted_average_exact:
  "fdiv exact (fmul exact (Finite e) (Finite Lwa))
     (fpow exact (fsub exact (fadd exact (flit exact 1) (Finite b)) (flit exact 0.85)) (flit exact 5))
   = (if (1 + b - 0.85) ^ 5 = 0 then NonFinite else Finite (e * Lwa / (1 + b - 0.85) ^ 5))"
proof -
  have "fpow exact (Finite x) (flit exact 5) = Finite (x ^ 5)" for x
    using fpow_five [of exact "Finite x"] by simp
  then show ?thesis by simp
qed

lemma map_drago_exposure_exact:
  assumes "e \<noteq> 0" and "Lwa \<noteq> 0" and "(1 + b - 0.85) ^ 5 \<noteq> 0"
  shows "map_drago exact v (Finite e) gamma Ldmax (Finite Lwa) Lwmax (Finite b) start slope
         = map_drago exact v (Finite 1) gamma Ldmax (Finite Lwa) Lwmax (Finite b) start slope"
proof -
  let ?p = "(1 + b - 0.85) ^ 5"
  have k: "fdiv exact (fmul exact (Finite e) x) (Finite (e * Lwa / ?p))
           = fdiv exact (fmul exact (Finite 1) x) (Finite (1 * Lwa / ?p))" for x
    using assms by (cases x) simp_all
  show ?thesis
    unfolding map_drago_def Let_def adapted_average_exact
    using assms(3) by (simp only: if_False k)
qed


lemma pixel_exposure_exact:
  assumes "e \<noteq> 0" and "Lwa \<noteq> 0" and "(1 + b - 0.85) ^ 5 \<noteq> 0"
  shows "pixel exact img (Finite e) (gamma, Ldmax, Finite Lwa, Lwmax, Finite b, start, slope)
           delta i j s
         = pixel exact img (Finite 1) (gamma, Ldmax, Finite Lwa, Lwmax, Finite b, start, slope)
             delta i j s"
  unfolding pixel_def prod.case map_drago_exposure_exact [OF assms] by (rule refl)

lemma columns_exposure_exact:
  assumes "e \<noteq> 0" and "Lwa \<noteq> 0" and "(1 + b - 0.85) ^ 5 \<noteq> 0"
  shows "columns exact img (Finite e) (gamma, Ldmax, Finite Lwa, Lwmax, Finite b, start, slope)
           delta i j s
         = columns exact img (Finite 1) (gamma, Ldmax, Finite Lwa, Lwmax, Finite b, start, slope)
             delta i j s"
proof (induction "nat (fst (getSize img) - j)" arbitrary: j s)
  case 0
  then show ?case
    by (simp add: columns.simps [of _ _ _ _ _ i j s])
next
  case (Suc n)
  then have "n = nat (fst (getSize img) - (j + 1))" and "j < fst (getSize img)"
    by linarith+
  then show ?case
    using Suc.hyps(1) [of "j + 1"]
    by (simp add: columns.simps [of _ _ _ _ _ i j s] pixel_exposure_exact [OF assms]
        split: sum.splits)
qed

lemma rows_exposure_exact:
  assumes "e \<noteq> 0" and "Lwa \<noteq> 0" and "(1 + b - 0.85) ^ 5 \<noteq> 0"
  shows "rows exact img (Finite e) (gamma, Ldmax, Finite Lwa, Lwmax, Finite b, start, slope)
           delta i s
         = rows exact img (Finite 1) (gamma, Ldmax, Finite Lwa, Lwmax, Finite b, start, slope)
             delta i s"
proof (induction "nat (snd (getSize img) - i)" arbitrary: i s)
  case 0
  then show ?case
    by (simp add: rows.simps [of _ _ _ _ _ i s])
next
  case (Suc n)
  then have "n = nat (snd (getSize img) - (i + 1))" and "i < snd (getSize img)"
    by linarith+
  then show ?case
    using Suc.hyps(1) [of "i + 1"]
    by (simp add: rows.simps [of _ _ _ _ _ i s] columns_exposure_exact [OF assms]
        split: sum.splits)
qed

lemma bind_r_cong_right: "(\<And>x. f x = g x) \<Longrightarrow> bind_r m f = bind_r m g"
  by (cases m) simp_all

text \<open>
  C9. In exact arithmetic \<^verbatim>\<open>map\<close> does not depend on the exposure: for a nonzero
  exposure \<open>e\<close>, a nonzero \<open>Lwa\<close> and \<open>(1 + b - 0.85)^5 \<noteq> 0\<close> the result at \<open>e\<close> is the
  result at exposure 1, since \<open>e\<close> cancels in the adapted maximum luminance and in the
  normalised sample. Hence \<^verbatim>\<open>process\<close> gives the same outcome, byte for byte, at every
  nonzero exposure when the operator stores such \<open>Lwa\<close> and \<open>b\<close>.
\<close>

theorem exposure_independent_exact:
  assumes "e \<noteq> 0" and "Lwa \<noteq> 0" and "(1 + b - 0.85) ^ 5 \<noteq> 0"
    and "parameters op ''Lwa'' = Some pLwa" and "param_value pLwa = Finite Lwa"
    and "parameters op ''b'' = Some pb" and "param_value pb = Finite b"
  shows "map_drago exact v (Finite e) gamma Ldmax (Finite Lwa) Lwmax (Finite b) start slope
         = map_drago exact v (Finite 1) gamma Ldmax (Finite Lwa) Lwmax (Finite b) start slope
       \<and> process exact op img mem (Finite e) = process exact op img mem (Finite 1)"
proof
  show "map_drago exact v (Finite e) gamma Ldmax (Finite Lwa) Lwmax (Finite b) start slope
         = map_drago exact v (Finite 1) gamma Ldmax (Finite Lwa) Lwmax (Finite b) start slope"
    by (rule map_drago_exposure_exact [OF assms(1-3)])
  show "process exact op img mem (Finite e) = process exact op img mem (Finite 1)"
    unfolding process_def Let_def
      params_at_Some [of "parameters op" "''Lwa''", OF assms(4)]
      params_at_Some [of "parameters op" "''b''", OF assms(6)]
      bind_r_Inr assms(5,7)
    by (intro bind_r_cong_right rows_exposure_exact [OF assms(1-3)])
qed

theorem exposure_independent_exact_witness:
  "(2::real) \<noteq> 0 \<and> (9::real) \<noteq> 0 \<and> (1 + 0.85 - 0.85 :: real) ^ 5 \<noteq> 0
   \<and> parameters example_operator ''Lwa'' = Some (Computed (Finite 9) ''Lwa'')
   \<and> param_value (Computed (Finite 9) ''Lwa'') = Finite 9
   \<and> parameters example_operator ''b'' = Some (b_parameter exact)
   \<and> param_value (b_parameter exact) = Finite 0.85
   \<and> map_drago exact (Finite 9) (Finite 2) (Finite 2.2) (Finite 100) (Finite 9) (Finite 9)
        (Finite 0.85) (Finite 0.018) (Finite 4.5)
      = map_drago exact (Finite 9) (Finite 1) (Finite 2.2) (Finite 100) (Finite 9) (Finite 9)
          (Finite 0.85) (Finite 0.018) (Finite 4.5)
   \<and> process exact example_operator example_image zero_memory (Finite 2)
      = process exact example_operator example_image zero_memory (Finite 1)"
proof -
  have h: "(2::real) \<noteq> 0" "(9::real) \<noteq> 0" "(1 + 0.85 - 0.85 :: real) ^ 5 \<noteq> 0"
    by simp_all
  have v: "param_value (Computed (Finite 9) ''Lwa'') = Finite 9"
    "param_value (b_parameter exact) = Finite 0.85"
    by simp_all
  show ?thesis
    using h v example_operator_parameters(3,5)
      exposure_independent_exact [OF h example_operator_parameters(3) v(1)
        example_operator_parameters(5) v(2), of "Finite 9" "Finite 2.2" "Finite 100" "Finite 9"
        "Finite 0.018" "Finite 4.5" example_image zero_memory]
    by blast
qed

section \<open>The gamma correction at \<open>start\<close>\<close>

text \<open>
  With the statistics \<open>Lwa = 1\<close> and \<open>Lwmax = 9\<close>, the bias 0.85 and exposure 1, the value 9
  is compressed to \<open>Ldmax / 100\<close>. So \<open>Ldmax = 1.8\<close> puts the compressed value on
  \<open>start = 0.018\<close>, and a larger \<open>Ldmax\<close> puts it above.
\<close>

lemma map_at_Ldmax:
  "map_drago exact (Finite 9) (Finite 1) (Finite 2.2) (Finite L) (Finite 1) (Finite 9)
     (Finite 0.85) (Finite 0.018) (Finite 4.5)
   = (if L \<le> 1.8 then Finite (4.5 * (0.01 * L))
      else Finite ((1.099 * (0.01 * L)) powr (9 / 22) - 0.099))"
  by (simp add: map_drago_def Let_def ln_half_nonzero)

text \<open>
  C7. When the compressed value equals \<open>start\<close> the linear branch is taken: the result is
  \<open>slope \<sqdot> start = 4.5 \<sqdot> 0.018 = 0.081\<close>. The second half of the claim fails on the
  code: for the defaults (slope 4.5, start 0.018, Gamma 2.2) the gamma branch stays at or
  above 0.101 for every compressed value above \<open>start\<close>, so the function jumps by at
  least 0.02 there.
\<close>

theorem gamma_correction_jump_at_start:
  "map_drago exact (Finite 9) (Finite 1) (Finite 2.2) (Finite 1.8) (Finite 1) (Finite 9)
     (Finite 0.85) (Finite 0.018) (Finite 4.5) = Finite 0.081
   \<and> (\<forall>L. 1.8 < L \<longrightarrow>
         (\<exists>y. map_drago exact (Finite 9) (Finite 1) (Finite 2.2) (Finite L) (Finite 1) (Finite 9)
                 (Finite 0.85) (Finite 0.018) (Finite 4.5) = Finite y
              \<and> 0.101 \<le> y))"
proof (intro conjI allI impI)
  show "map_drago exact (Finite 9) (Finite 1) (Finite 2.2) (Finite 1.8) (Finite 1) (Finite 9)
     (Finite 0.85) (Finite 0.018) (Finite 4.5) = Finite 0.081"
    unfolding map_at_Ldmax by simp
next
  fix L :: real
  assume L: "1.8 < L"
  have "0.019782 \<le> 1.099 * (0.01 * L)"
    using L by simp
  then have "(0.019782::real) powr (9 / 22) \<le> (1.099 * (0.01 * L)) powr (9 / 22)"
    by (intro powr_mono2) simp_all
  then have "0.101 \<le> (1.099 * (0.01 * L)) powr (9 / 22) - 0.099"
    using gamma_at_start_bound by simp
  then show "\<exists>y. map_drago exact (Finite 9) (Finite 1) (Finite 2.2) (Finite L) (Finite 1)
                 (Finite 9) (Finite 0.85) (Finite 0.018) (Finite 4.5) = Finite y \<and> 0.101 \<le> y"
    unfolding map_at_Ldmax using L by simp
qed

theorem gamma_correction_jump_at_start_witness:
  "(1.8::real) < 2
   \<and> map_drago exact (Finite 9) (Finite 1) (Finite 2.2) (Finite 2) (Finite 1) (Finite 9)
        (Finite 0.85) (Finite 0.018) (Finite 4.5)
      = Finite ((1.099 * (0.01 * 2)) powr (9 / 22) - 0.099)
   \<and> (0.101::real) \<le> (1.099 * (0.01 * 2)) powr (9 / 22) - 0.099"
proof -
  have h: "(1.8::real) < 2"
    by simp
  have m: "map_drago exact (Finite 9) (Finite 1) (Finite 2.2) (Finite 2) (Finite 1) (Finite 9)
        (Finite 0.85) (Finite 0.018) (Finite 4.5)
      = Finite ((1.099 * (0.01 * 2)) powr (9 / 22) - 0.099)"
    unfolding map_at_Ldmax by simp
  show ?thesis
    using h m gamma_correction_jump_at_start by (metis float.inject)
qed

section \<open>The fragment shader against \<^verbatim>\<open>map\<close>\<close>

lemma fragment_example:
  "fragment_main exact (Finite 1) (Finite 2.2) (Finite 200) (Finite 9) (Finite 9) (Finite 0.85)
     (Finite 0.018) (Finite 4.5) (vec4 (Finite 9) (Finite 9) (Finite 9) (Finite 1))
   = vec4 (Finite (1.099 powr (9 / 22) - 0.099)) (Finite (1.099 powr (9 / 22) - 0.099))
       (Finite (1.099 powr (9 / 22) - 0.099)) (Finite 1)"
  by (simp add: fragment_main_def Let_def clampedValue_def gammaCorrect_def ln_half_nonzero)

lemma map_example_bright:
  "map_drago exact (Finite 9) (Finite 1) (Finite 2.2) (Finite 200) (Finite 9) (Finite 9)
     (Finite 0.85) (Finite 0.018) (Finite 4.5) = Finite (2.198 powr (9 / 22) - 0.099)"
  by (simp add: map_drago_def Let_def ln_half_nonzero log_def)

text \<open>
  C2 fails on the code. The shader clamps the compressed colour to [0, 1] before the gamma
  correction, \<^verbatim>\<open>map\<close> corrects the unclamped value (and \<^verbatim>\<open>process\<close> clamps
  afterwards). For the value 9 with the statistics 9 and 9, \<open>Ldmax = 200\<close> and the other
  defaults the compressed value is 2: the shader returns
  \<open>1.099 powr (9 / 22) - 0.099\<close>, which is below 1, in each colour channel, and
  \<^verbatim>\<open>map\<close> returns \<open>2.198 powr (9 / 22) - 0.099\<close>, which is above 1.
\<close>

theorem shader_differs_from_map:
  "fragment_main exact (Finite 1) (Finite 2.2) (Finite 200) (Finite 9) (Finite 9) (Finite 0.85)
     (Finite 0.018) (Finite 4.5) (vec4 (Finite 9) (Finite 9) (Finite 9) (Finite 1))
   = vec4 (Finite (1.099 powr (9 / 22) - 0.099)) (Finite (1.099 powr (9 / 22) - 0.099))
       (Finite (1.099 powr (9 / 22) - 0.099)) (Finite 1)
   \<and> map_drago exact (Finite 9) (Finite 1) (Finite 2.2) (Finite 200) (Finite 9) (Finite 9)
     (Finite 0.85) (Finite 0.018) (Finite 4.5) = Finite (2.198 powr (9 / 22) - 0.099)
   \<and> (1.099 :: real) powr (9 / 22) - 0.099 < 1
   \<and> 1 < (2.198 :: real) powr (9 / 22) - 0.099"
  using fragment_example map_example_bright gamma_at_one_bounds(2) gamma_at_two_bound
  by simp

section \<open>The progress sink\<close>

subsection \<open>Exact arithmetic\<close>

lemma accumulate_exact:
  "((\<lambda>p. fadd exact p (Finite d)) ^^ k) (Finite x) = Finite (x + real k * d)"
  by (induction k) (simp_all add: algebra_simps)

text \<open>
  Without rounding the sink holds \<open>k / (w h)\<close> after \<open>k\<close> pixels (each pixel adds
  \<open>delta\<close>, see \<open>pixel_Inr\<close>), and 1 at the end.
\<close>

lemma progress_exact:
  assumes "process exact op img mem exposure = Inr s"
    and "parameters op ''Gamma'' = Some pGamma"
    and "parameters op ''Ldmax'' = Some pLdmax"
    and "parameters op ''Lwa'' = Some pLwa"
    and "parameters op ''Lwmax'' = Some pLwmax"
    and "parameters op ''b'' = Some pb"
    and "parameters op ''start'' = Some pstart"
    and "parameters op ''slope'' = Some pslope"
    and "1 \<le> fst (getSize img)" and "1 \<le> snd (getSize img)"
  shows "progress s = Finite 1"
proof -
  let ?w = "fst (getSize img)" and ?h = "snd (getSize img)"
  let ?vals = "(param_value pGamma, param_value pLdmax, param_value pLwa, param_value pLwmax,
            param_value pb, param_value pstart, param_value pslope)"
  have w0: "0 \<le> ?w"
    using assms(9) by simp
  obtain n where n: "int_mul ?w ?h = Inr n"
    and r: "rows exact img exposure ?vals (fdiv exact (flit exact 1) (float_of_int exact n)) 0
               \<lparr> buffer = mem, dst = 0, progress = flit exact 0 \<rparr> = Inr s"
    using assms(1) unfolding process_rows [OF assms(2-8)] by (auto simp: bind_r_eq_Inr)
  have nv: "n = ?w * ?h"
    using n by (simp add: int_mul_def split: if_splits)
  have pos: "0 < ?w * ?h"
    using assms(9,10) by simp
  have d: "fdiv exact (flit exact 1) (float_of_int exact n) = Finite (1 / real_of_int (?w * ?h))"
    unfolding nv using assms(9,10) by simp
  have k: "real (nat ?w * nat ?h) = real_of_int (?w * ?h)"
    using assms(9,10) by simp
  have "progress s = ((\<lambda>p. fadd exact p (Finite (1 / real_of_int (?w * ?h))))
                       ^^ (nat ?w * nat ?h)) (Finite 0)"
    using rows_inv [OF r w0] unfolding d by simp
  also have "\<dots> = Finite (0 + real (nat ?w * nat ?h) * (1 / real_of_int (?w * ?h)))"
    by (rule accumulate_exact)
  also have "\<dots> = Finite 1"
    unfolding k using assms(9,10) by simp
  finally show ?thesis .
qed

subsection \<open>Rounding to single precision\<close>

lemma round_even_of_int: "round_even (of_int n) = n"
  by (simp add: round_even_def)

lemma round_even_ge: "of_int n \<le> x \<Longrightarrow> n \<le> round_even x"
proof -
  assume "of_int n \<le> x"
  then have "n \<le> \<lfloor>x\<rfloor>" by (simp add: le_floor_iff)
  then show ?thesis by (simp add: round_even_def Let_def)
qed

lemma round_even_le: "x \<le> of_int n \<Longrightarrow> round_even x \<le> n"
proof -
  assume a: "x \<le> of_int n"
  show ?thesis
  proof (cases "x = of_int \<lfloor>x\<rfloor>")
    case True
    then have "round_even x = \<lfloor>x\<rfloor>"
      by (simp add: round_even_def Let_def)
    then show ?thesis using a by (simp add: floor_le_iff)
  next
    case False
    then have "of_int \<lfloor>x\<rfloor> < x" 
      using of_int_floor_le [of x] by linarith
    then have "of_int \<lfloor>x\<rfloor> < (of_int n :: real)" using a by linarith
    then have "\<lfloor>x\<rfloor> + 1 \<le> n" by simp
    then show ?thesis by (simp add: round_even_def Let_def)
  qed
qed

text \<open>The exponent of the last place.\<close>

lemma binary32_unfold:
  assumes "x \<noteq> 0" and "\<lfloor>log 2 \<bar>x\<bar>\<rfloor> = j" and "- 126 \<le> j"
  shows "binary32 x =
           (if \<bar>real_of_int (round_even (x / 2 powr of_int (j - 23))) * 2 powr of_int (j - 23)\<bar>
                < 2 ^ 128
            then Finite (of_int (round_even (x / 2 powr of_int (j - 23))) * 2 powr of_int (j - 23))
            else NonFinite)"
proof -
  have "max (j - 23) (- 149) = j - 23"
    using assms(3) by simp
  then show ?thesis
    using assms(1,2) by (simp add: binary32_def Let_def)
qed

lemma floor_log2_eq:
  assumes "2 powr of_int j \<le> x" and "x < 2 powr of_int (j + 1)"
  shows "\<lfloor>log 2 x\<rfloor> = j"
proof -
  have "0 < x" using assms(1) powr_gt_zero [of 2 "of_int j"] by linarith
  then show ?thesis
    using assms by (simp add: floor_log_eq_powr_iff)
qed


lemma binary32_representable:
  assumes x: "x = of_int m * 2 powr of_int k"
    and m: "\<bar>m\<bar> < 2 ^ 24" and k: "- 149 \<le> k" "k \<le> 104"
  shows "binary32 x = Finite x"
proof (cases "x = 0")
  case True
  then show ?thesis by (simp add: binary32_def)
next
  case False
  define e where "e = max (\<lfloor>log 2 \<bar>x\<bar>\<rfloor> - 23) (- 149)"
  have ax: "\<bar>x\<bar> = of_int \<bar>m\<bar> * 2 powr of_int k"
    unfolding x by (simp add: abs_mult)
  have "of_int \<bar>m\<bar> < (2 ^ 24 :: real)"
    using m by (metis of_int_less_numeral_power_cancel_iff)
  then have "\<bar>x\<bar> < 2 ^ 24 * 2 powr of_int k"
    unfolding ax by simp
  also have "\<dots> = 2 powr of_int (24 + k)"
    by (simp add: powr_add)
  finally have lt: "\<bar>x\<bar> < 2 powr of_int (24 + k)" .
  have "log 2 \<bar>x\<bar> < of_int (24 + k)"
    using lt False by (simp add: log_less_iff)
  then have "\<lfloor>log 2 \<bar>x\<bar>\<rfloor> < 24 + k"
    by (simp add: floor_less_iff)
  then have ek: "e \<le> k"
    unfolding e_def using k by simp
  define n where "n = nat (k - e)"
  have kn: "of_int k = of_int e + real n"
    unfolding n_def using ek by simp
  have q: "x / 2 powr of_int e = of_int (m * 2 ^ n)"
    unfolding x kn by (simp add: powr_add powr_realpow)
  have y: "of_int (round_even (x / 2 powr of_int e)) * 2 powr of_int e = x"
    unfolding q round_even_of_int unfolding x kn by (simp add: powr_add powr_realpow)
  have "2 powr of_int (24 + k) \<le> (2 powr 128 :: real)"
    using k by (intro powr_mono) simp_all
  then have b: "\<bar>x\<bar> < 2 ^ 128"
    using lt by simp
  show ?thesis
    using False y b unfolding binary32_def Let_def e_def [symmetric] by simp
qed


lemma binary32_range:
  assumes lo: "2 powr of_int k \<le> \<bar>x\<bar>" and hi: "\<bar>x\<bar> \<le> 2 powr of_int l"
    and k: "- 126 \<le> k" and l: "l \<le> 127"
  shows "\<exists>y. binary32 x = Finite y \<and> 2 powr of_int k \<le> \<bar>y\<bar> \<and> \<bar>y\<bar> \<le> 2 powr of_int l
             \<and> (0 < x \<longrightarrow> 0 < y) \<and> (x < 0 \<longrightarrow> y < 0)"
proof -
  have pos: "0 < \<bar>x\<bar>"
    using lo powr_gt_zero [of 2 "of_int k"] by linarith
  then have x0: "x \<noteq> 0" by simp
  define j where "j = \<lfloor>log 2 \<bar>x\<bar>\<rfloor>"
  have j: "2 powr of_int j \<le> \<bar>x\<bar>" "\<bar>x\<bar> < 2 powr of_int (j + 1)"
    using pos floor_log_eq_powr_iff [of "\<bar>x\<bar>" 2 j] unfolding j_def by simp_all
  have "2 powr of_int k < (2 powr of_int (j + 1) :: real)"
    using lo j(2) by linarith
  then have kj: "k \<le> j" by simp
  have "2 powr of_int j \<le> (2 powr of_int l :: real)"
    using hi j(1) by linarith
  then have jl: "j \<le> l" by simp
  show ?thesis
  proof (cases "j = l")
    case True
    then have ax: "\<bar>x\<bar> = 2 powr of_int l"
      using hi j(1) by simp
    have p: "2 powr of_int l = (2 ^ 23 * 2 powr of_int (l - 23) :: real)"
      by (simp add: powr_diff)
    have "x = of_int (if 0 < x then 2 ^ 23 else - (2 ^ 23)) * 2 powr of_int (l - 23)"
      using ax x0 unfolding p by (simp add: abs_if split: if_splits)
    moreover have "\<bar>if 0 < x then 2 ^ 23 else - (2 ^ 23) :: int\<bar> < 2 ^ 24"
      by simp
    moreover have "- 149 \<le> l - 23" "l - 23 \<le> 104"
      using k kj jl l by simp_all
    ultimately have "binary32 x = Finite x"
      by (rule binary32_representable)
    then show ?thesis
      using lo hi by auto
  next
    case False
    then have jl': "j + 1 \<le> l" using jl by simp
    define e where "e = j - 23"
    define q where "q = x / 2 powr of_int e"
    define y where "y = real_of_int (round_even q) * 2 powr of_int e"
    have pe: "0 < (2 powr of_int e :: real)" by simp
    have pj: "(2 powr of_int j :: real) = 2 ^ 23 * 2 powr of_int e"
      "(2 powr of_int (j + 1) :: real) = 2 ^ 24 * 2 powr of_int e"
      unfolding e_def by (simp_all add: powr_diff powr_add)
    have aq: "\<bar>q\<bar> = \<bar>x\<bar> / 2 powr of_int e"
      unfolding q_def by simp
    have q1: "2 ^ 23 \<le> \<bar>q\<bar>"
      unfolding aq using j(1) pe unfolding pj by (simp add: le_divide_eq)
    have q2: "\<bar>q\<bar> < 2 ^ 24"
      unfolding aq using j(2) pe unfolding pj by (simp add: divide_less_eq)
    have sq: "(0 < x \<longrightarrow> 0 < q) \<and> (x < 0 \<longrightarrow> q < 0)"
      unfolding q_def using pe by (simp add: divide_less_0_iff zero_less_divide_iff)
    have m: "2 ^ 23 \<le> \<bar>round_even q\<bar> \<and> \<bar>round_even q\<bar> \<le> 2 ^ 24
             \<and> (0 < x \<longrightarrow> 0 < round_even q) \<and> (x < 0 \<longrightarrow> round_even q < 0)"
    proof (cases "0 < x")
      case True
      then have "0 < q" using sq by simp
      then have b: "of_int (2 ^ 23) \<le> q" "q \<le> of_int (2 ^ 24)"
        using q1 q2 by simp_all
      have "2 ^ 23 \<le> round_even q" "round_even q \<le> 2 ^ 24"
        using round_even_ge [OF b(1)] round_even_le [OF b(2)] by simp_all
      then show ?thesis using True by simp
    next
      case False
      then have neg: "x < 0" using x0 by simp
      then have "q < 0" using sq by simp
      then have b: "of_int (- (2 ^ 24)) \<le> q" "q \<le> of_int (- (2 ^ 23))"
        using q1 q2 by simp_all
      have "- (2 ^ 24) \<le> round_even q" "round_even q \<le> - (2 ^ 23)"
        using round_even_ge [OF b(1)] round_even_le [OF b(2)] by simp_all
      then show ?thesis using neg by simp
    qed
    have ay: "\<bar>y\<bar> = real_of_int \<bar>round_even q\<bar> * 2 powr of_int e"
      unfolding y_def by (simp add: abs_mult)
    have "real_of_int (2 ^ 23) \<le> real_of_int \<bar>round_even q\<bar>"
      "real_of_int \<bar>round_even q\<bar> \<le> real_of_int (2 ^ 24)"
      using m by (simp_all only: of_int_le_iff)
    then have y1: "2 powr of_int j \<le> \<bar>y\<bar>" and y2: "\<bar>y\<bar> \<le> 2 powr of_int (j + 1)"
      unfolding ay pj using pe by simp_all
    have "(2 powr of_int (j + 1) :: real) \<le> 2 powr of_int l"
      using jl' by simp
    then have y3: "\<bar>y\<bar> \<le> 2 powr of_int l"
      using y2 by linarith
    have "(2 powr of_int k :: real) \<le> 2 powr of_int j"
      using kj by simp
    then have y4: "2 powr of_int k \<le> \<bar>y\<bar>"
      using y1 by linarith
    have "(2 powr of_int l :: real) \<le> 2 powr 127"
      using l by (intro powr_mono) simp_all
    then have y5: "\<bar>y\<bar> < 2 ^ 128"
      using y3 by simp
    have sy: "(0 < x \<longrightarrow> 0 < y) \<and> (x < 0 \<longrightarrow> y < 0)"
      unfolding y_def using m pe by (simp add: mult_less_0_iff zero_less_mult_iff)
    have "\<lfloor>log 2 \<bar>x\<bar>\<rfloor> = j" by (simp add: j_def)
    from binary32_unfold [OF x0 this] k kj
    have "binary32 x = Finite y"
      using y5 unfolding y_def q_def e_def by simp
    then show ?thesis
      using y3 y4 sy by simp
  qed
qed

lemma binary32_eval:
  assumes "2 powr of_int j \<le> \<bar>x\<bar>" and "\<bar>x\<bar> < 2 powr of_int (j + 1)" and "- 126 \<le> j"
    and "round_even (x / 2 powr of_int (j - 23)) = m"
    and "\<bar>real_of_int m * 2 powr of_int (j - 23)\<bar> < 2 ^ 128"
  shows "binary32 x = Finite (of_int m * 2 powr of_int (j - 23))"
proof -
  have "0 < \<bar>x\<bar>"
    using assms(1) powr_gt_zero [of 2 "of_int j"] by linarith
  then have x0: "x \<noteq> 0" by simp
  have "\<lfloor>log 2 \<bar>x\<bar>\<rfloor> = j"
    using assms(1,2) by (rule floor_log2_eq)
  from binary32_unfold [OF x0 this assms(3)] show ?thesis
    unfolding assms(4) using assms(5) by simp
qed

lemma binary32_bias: "binary32 0.85 = Finite (14260634 / 2 ^ 24)"
proof -
  have "binary32 0.85 = Finite (of_int 14260634 * 2 powr of_int (- 1 - 23))"
    by (rule binary32_eval) (simp_all add: powr_minus_divide round_even_def Let_def)
  then show ?thesis
    by (simp add: powr_minus_divide)
qed

lemma binary32_tie: "binary32 (1 / 2 + 1 / 2 ^ 25) = Finite (1 / 2)"
proof -
  have "binary32 (1 / 2 + 1 / 2 ^ 25) = Finite (of_int 8388608 * 2 powr of_int (- 1 - 23))"
    by (rule binary32_eval) (simp_all add: powr_minus_divide round_even_def Let_def)
  then show ?thesis
    by (simp add: powr_minus_divide)
qed

text \<open>Numbers that single precision holds exactly.\<close>

lemma binary32_of_nat:
  assumes "n < 2 ^ 24"
  shows "binary32 (real n) = Finite (real n)"
proof -
  have "real n = of_int (int n) * 2 powr of_int 0"
    by simp
  moreover have "\<bar>int n\<bar> < 2 ^ 24"
    using assms by simp
  ultimately show ?thesis
    by (rule binary32_representable) simp_all
qed

lemma binary32_scaled:
  assumes "n < 2 ^ 24" and "- 149 \<le> k" and "k \<le> 104"
  shows "binary32 (real n * 2 powr of_int k) = Finite (real n * 2 powr of_int k)"
proof -
  have "real n * 2 powr of_int k = of_int (int n) * 2 powr of_int k"
    by simp
  moreover have "\<bar>int n\<bar> < 2 ^ 24"
    using assms by simp
  ultimately show ?thesis
    using assms(2,3) by (rule binary32_representable)
qed

lemma progress_accumulates_binary32:
  "((\<lambda>p. fadd binary32 p (Finite (1 / 2 ^ 25))) ^^ k) (Finite 0)
     = Finite (real (min k (2 ^ 24)) / 2 ^ 25)"
proof (induction k)
  case 0
  show ?case by simp
next
  case (Suc k)
  have step: "binary32 (real (min k (2 ^ 24)) / 2 ^ 25 + 1 / 2 ^ 25)
                = Finite (real (min (Suc k) (2 ^ 24)) / 2 ^ 25)"
  proof (cases "Suc k < 2 ^ 24")
    case True
    have "binary32 (real (Suc k) * 2 powr of_int (- 25)) = Finite (real (Suc k) * 2 powr of_int (- 25))"
      using True by (intro binary32_scaled) simp_all
    moreover have "real (Suc k) * 2 powr of_int (- 25) = real (Suc k) / 2 ^ 25"
      by (simp add: powr_minus_divide)
    ultimately have a: "binary32 (real (Suc k) / 2 ^ 25) = Finite (real (Suc k) / 2 ^ 25)"
      by (simp only:)
    have b: "real (min k (2 ^ 24)) / 2 ^ 25 + 1 / 2 ^ 25 = real (Suc k) / 2 ^ 25"
      using True by (simp add: add_divide_distrib)
    have c: "min (Suc k) (2 ^ 24) = Suc k"
      using True by simp
    show ?thesis unfolding b c by (rule a)
  next
    case False
    have half: "binary32 (1 / 2) = Finite (1 / 2)"
      using binary32_scaled [of 1 "- 1"] by (simp add: powr_minus_divide)
    show ?thesis
    proof (cases "Suc k = 2 ^ 24")
      case True
      then have "real (min k (2 ^ 24)) / 2 ^ 25 + 1 / 2 ^ 25 = real (Suc k) / 2 ^ 25"
        by (simp add: add_divide_distrib)
      also have "\<dots> = 1 / 2"
        unfolding True by simp
      finally have b: "real (min k (2 ^ 24)) / 2 ^ 25 + 1 / 2 ^ 25 = 1 / 2" .
      have c: "real (min (Suc k) (2 ^ 24)) / 2 ^ 25 = 1 / 2"
        unfolding True by simp
      show ?thesis unfolding b c by (rule half)
    next
      case F: False
      then have k: "2 ^ 24 \<le> k" using False by simp
      then have b: "real (min k (2 ^ 24)) / 2 ^ 25 + 1 / 2 ^ 25 = 1 / 2 + 1 / 2 ^ 25"
        by simp
      have c: "real (min (Suc k) (2 ^ 24)) / 2 ^ 25 = 1 / 2"
        using k by simp
      show ?thesis unfolding b c by (rule binary32_tie)
    qed
  qed
  show ?case
    unfolding funpow.simps comp_apply Suc.IH fadd.simps step by (rule refl)
qed

lemma binary32_literals:
  "flit binary32 0 = Finite 0"
  "flit binary32 1 = Finite 1"
  "flit binary32 2 = Finite 2"
  "flit binary32 5 = Finite 5"
  "flit binary32 8 = Finite 8"
  "flit binary32 100 = Finite 100"
  "flit binary32 255 = Finite 255"
  "flit binary32 0.5 = Finite 0.5"
  "flit binary32 4.5 = Finite 4.5"
  using binary32_of_nat [of 0] binary32_of_nat [of 1] binary32_of_nat [of 2]
    binary32_of_nat [of 5] binary32_of_nat [of 8] binary32_of_nat [of 100]
    binary32_of_nat [of 255] binary32_scaled [of 1 "- 1"] binary32_scaled [of 9 "- 1"]
  by (simp_all add: flit_def powr_minus_divide)

lemma binary32_pos:
  assumes "2 powr of_int k \<le> x" and "x \<le> 2 powr of_int l" and "- 126 \<le> k" and "l \<le> 127"
  shows "\<exists>y. binary32 x = Finite y \<and> 2 powr of_int k \<le> y \<and> y \<le> 2 powr of_int l"
proof -
  have x: "0 < x"
    using assms(1) powr_gt_zero [of 2 "of_int k"] by linarith
  then have "2 powr of_int k \<le> \<bar>x\<bar>" "\<bar>x\<bar> \<le> 2 powr of_int l"
    using assms(1,2) by simp_all
  from binary32_range [OF this assms(3,4)] x
  obtain y where "binary32 x = Finite y" "2 powr of_int k \<le> \<bar>y\<bar>" "\<bar>y\<bar> \<le> 2 powr of_int l"
    "0 < y"
    by blast
  then show ?thesis
    by (intro exI [of _ y]) simp
qed

lemma binary32_neg:
  assumes "x \<le> - (2 powr of_int k)" and "- (2 powr of_int l) \<le> x" and "- 126 \<le> k"
    and "l \<le> 127"
  shows "\<exists>y. binary32 x = Finite y \<and> y \<le> - (2 powr of_int k) \<and> - (2 powr of_int l) \<le> y"
proof -
  have x: "x < 0"
    using assms(1) powr_gt_zero [of 2 "of_int k"] by linarith
  then have "2 powr of_int k \<le> \<bar>x\<bar>" "\<bar>x\<bar> \<le> 2 powr of_int l"
    using assms(1,2) by simp_all
  from binary32_range [OF this assms(3,4)] x
  obtain y where "binary32 x = Finite y" "2 powr of_int k \<le> \<bar>y\<bar>" "\<bar>y\<bar> \<le> 2 powr of_int l"
    "y < 0"
    by blast
  then show ?thesis
    by (intro exI [of _ y]) simp
qed

text \<open>Logarithms that the mapping of a black pixel meets, in single precision.\<close>

lemma ln_half_bounds: "ln (1 / 2 :: real) \<le> - (1 / 2)" "- 1 \<le> ln (1 / 2 :: real)"
proof -
  show "ln (1 / 2 :: real) \<le> - (1 / 2)"
    using ln_le_minus_one [of "1 / 2 :: real"] by simp
  have "ln (2 :: real) \<le> 2 - 1"
    by (rule ln_le_minus_one) simp
  then show "- 1 \<le> ln (1 / 2 :: real)"
    by (simp add: ln_div)
qed

lemma ln_bias_bounds:
  "ln (14260634 / 2 ^ 24 :: real) \<le> - (1 / 8)" "- (1 / 4) \<le> ln (14260634 / 2 ^ 24 :: real)"
proof -
  show "ln (14260634 / 2 ^ 24 :: real) \<le> - (1 / 8)"
    using ln_le_minus_one [of "14260634 / 2 ^ 24 :: real"] by simp
  have "ln (2 ^ 24 / 14260634 :: real) \<le> 2 ^ 24 / 14260634 - 1"
    by (rule ln_le_minus_one) simp
  moreover have "ln (2 ^ 24 / 14260634 :: real) = - ln (14260634 / 2 ^ 24 :: real)"
    by (simp add: ln_div)
  ultimately show "- (1 / 4) \<le> ln (14260634 / 2 ^ 24 :: real)"
    by simp
qed

lemma flog_half_binary32:
  "\<exists>y. flog binary32 (Finite (1 / 2)) = Finite y \<and> y \<le> - (1 / 2) \<and> - 1 \<le> y"
proof -
  have "\<exists>y. binary32 (ln (1 / 2)) = Finite y \<and> y \<le> - (2 powr of_int (- 1))
            \<and> - (2 powr of_int 0) \<le> y"
    using ln_half_bounds by (intro binary32_neg) (simp_all add: powr_minus_divide)
  then show ?thesis
    by (simp add: powr_minus_divide)
qed

lemma flog_bias_binary32:
  "\<exists>y. flog binary32 (Finite (14260634 / 2 ^ 24)) = Finite y \<and> y \<le> - (1 / 8) \<and> - (1 / 4) \<le> y"
proof -
  have "\<exists>y. binary32 (ln (14260634 / 2 ^ 24)) = Finite y \<and> y \<le> - (2 powr of_int (- 3))
            \<and> - (2 powr of_int (- 2)) \<le> y"
    using ln_bias_bounds by (intro binary32_neg) (simp_all add: powr_minus_divide)
  then show ?thesis
    by (simp add: powr_minus_divide)
qed

lemma flog_two_binary32:
  "\<exists>y. flog binary32 (Finite 2) = Finite y \<and> 1 / 2 \<le> y"
proof -
  have "ln (2 :: real) = - ln (1 / 2)"
    by (simp add: ln_div)
  then have "1 / 2 \<le> ln (2 :: real)" "ln (2 :: real) \<le> 1"
    using ln_half_bounds by simp_all
  then have "\<exists>y. binary32 (ln 2) = Finite y \<and> 2 powr of_int (- 1) \<le> y \<and> y \<le> 2 powr of_int 0"
    by (intro binary32_pos) (simp_all add: powr_minus_divide)
  then show ?thesis
    by (auto simp: powr_minus_divide)
qed

lemma exponent_binary32:
  "\<exists>y. fdiv binary32 (flog binary32 (Finite (14260634 / 2 ^ 24))) (flog binary32 (Finite (1 / 2)))
          = Finite y \<and> 0 < y"
proof -
  obtain lb where lb: "flog binary32 (Finite (14260634 / 2 ^ 24)) = Finite lb"
    "lb \<le> - (1 / 8)" "- (1 / 4) \<le> lb"
    using flog_bias_binary32 by blast
  obtain lh where lh: "flog binary32 (Finite (1 / 2)) = Finite lh" "lh \<le> - (1 / 2)" "- 1 \<le> lh"
    using flog_half_binary32 by blast
  have q: "lb / lh = (- lb) / (- lh)"
    by simp
  have "1 / 8 \<le> lb / lh"
  proof -
    have "1 / 8 \<le> (- lb) / 1" using lb(2) by simp
    also have "\<dots> \<le> (- lb) / (- lh)"
      using lb(2) lh(2,3) by (intro divide_left_mono) simp_all
    finally show ?thesis unfolding q .
  qed
  moreover have "lb / lh \<le> 1 / 2"
  proof -
    have "(- lb) / (- lh) \<le> (1 / 4) / (- lh)"
      using lb(3) lh(2) by (intro divide_right_mono) simp_all
    also have "\<dots> \<le> (1 / 4) / (1 / 2)"
      using lh(2) by (intro divide_left_mono) simp_all
    finally show ?thesis unfolding q by simp
  qed
  ultimately have "\<exists>y. binary32 (lb / lh) = Finite y \<and> 2 powr of_int (- 3) \<le> y
                     \<and> y \<le> 2 powr of_int (- 1)"
    by (intro binary32_pos) (simp_all add: powr_minus_divide)
  then obtain y where "binary32 (lb / lh) = Finite y" "1 / 8 \<le> y"
    by (auto simp: powr_minus_divide)
  then show ?thesis
    unfolding lb(1) lh(1) using lh(2) by (intro exI [of _ y]) simp
qed

lemma display_constant_binary32:
  "\<exists>y. fdiv binary32 (fmul binary32 (flit binary32 0.01) (Finite 100))
          (flog10 binary32 (fadd binary32 (Finite 1) (Finite 9))) = Finite y"
proof -
  have "\<exists>c. binary32 0.01 = Finite c \<and> 2 powr of_int (- 7) \<le> c \<and> c \<le> 2 powr of_int (- 6)"
    by (intro binary32_pos) (simp_all add: powr_minus_divide)
  then obtain c where c: "binary32 0.01 = Finite c" "1 / 128 \<le> c" "c \<le> 1 / 64"
    by (auto simp: powr_minus_divide)
  have "\<exists>a. binary32 (c * 100) = Finite a \<and> 2 powr of_int (- 1) \<le> a \<and> a \<le> 2 powr of_int 1"
    using c(2,3) by (intro binary32_pos) (simp_all add: powr_minus_divide)
  then obtain a where a: "binary32 (c * 100) = Finite a" "1 / 2 \<le> a" "a \<le> 2"
    by (auto simp: powr_minus_divide)
  have "\<exists>y. binary32 a = Finite y \<and> 2 powr of_int (- 1) \<le> y \<and> y \<le> 2 powr of_int 1"
    using a(2,3) by (intro binary32_pos) (simp_all add: powr_minus_divide)
  then obtain y where y: "binary32 a = Finite y"
    by blast
  have ten: "binary32 10 = Finite 10" and one: "binary32 1 = Finite 1"
    using binary32_of_nat [of 10] binary32_of_nat [of 1] by simp_all
  have s1: "fmul binary32 (flit binary32 0.01) (Finite 100) = Finite a"
    unfolding flit_def c(1) fmul.simps by (rule a(1))
  have s2: "fadd binary32 (Finite 1) (Finite 9) = Finite 10"
    by (simp add: ten)
  have s3: "flog10 binary32 (Finite 10) = Finite 1"
    by (simp add: one)
  have s4: "fdiv binary32 (Finite a) (Finite 1) = Finite y"
    by (simp add: y)
  show ?thesis
    unfolding s1 s2 s3 s4 by blast
qed

lemma start_binary32: "\<exists>y. flit binary32 0.018 = Finite y \<and> 0 \<le> y"
proof -
  have "\<exists>y. binary32 0.018 = Finite y \<and> 2 powr of_int (- 6) \<le> y \<and> y \<le> 2 powr of_int (- 5)"
    by (intro binary32_pos) (simp_all add: powr_minus_divide)
  then obtain y where y: "binary32 0.018 = Finite y" "1 / 64 \<le> y"
    by (auto simp: powr_minus_divide)
  have "0 \<le> y"
    using y(2) by simp
  then show ?thesis
    unfolding flit_def y(1) by blast
qed

lemma map_black_binary32:
  "map_drago binary32 (Finite 0) (Finite 1) gamma (flit binary32 100) (Finite 1) (Finite 9)
     (flit binary32 0.85) (flit binary32 0.018) (flit binary32 4.5) = Finite 0"
proof -
  define \<beta> :: real where "\<beta> = 14260634 / 2 ^ 24"
  have bias: "flit binary32 0.85 = Finite \<beta>"
    unfolding \<beta>_def flit_def by (rule binary32_bias)
  have zero: "binary32 0 = Finite 0" and one: "binary32 1 = Finite 1"
    and two: "binary32 2 = Finite 2" and nine: "binary32 9 = Finite 9"
    using binary32_of_nat [of 0] binary32_of_nat [of 1] binary32_of_nat [of 2]
      binary32_of_nat [of 9] by simp_all
  have "binary32 (real 15518925 * 2 powr of_int (- 23)) = Finite (real 15518925 * 2 powr of_int (- 23))"
    by (intro binary32_scaled) simp_all
  moreover have "real 15518925 * 2 powr of_int (- 23) = 1 + \<beta>"
    unfolding \<beta>_def by (simp add: powr_minus_divide)
  ultimately have a1: "fadd binary32 (Finite 1) (Finite \<beta>) = Finite (1 + \<beta>)"
    by simp
  have a2: "fsub binary32 (Finite (1 + \<beta>)) (Finite \<beta>) = Finite 1"
    by (simp add: one)
  have a3: "fpow binary32 (Finite 1) (Finite 5) = Finite 1"
    by (simp add: one)
  have a4: "fmul binary32 (Finite 1) (Finite 1) = Finite 1"
    "fdiv binary32 (Finite 1) (Finite 1) = Finite 1"
    "fmul binary32 (Finite 1) (Finite 9) = Finite 9"
    "fdiv binary32 (Finite 9) (Finite 1) = Finite 9"
    "fmul binary32 (Finite 1) (Finite 0) = Finite 0"
    "fdiv binary32 (Finite 0) (Finite 1) = Finite 0"
    "fdiv binary32 (Finite 0) (Finite 9) = Finite 0"
    "fadd binary32 (Finite 1) (Finite 0) = Finite 1"
    "flog binary32 (Finite 1) = Finite 0"
    "fmul binary32 (Finite 8) (Finite 0) = Finite 0"
    "fadd binary32 (Finite 2) (Finite 0) = Finite 2"
    "fmul binary32 (Finite 4.5) (Finite 0) = Finite 0"
    by (simp_all add: zero one two nine)
  obtain ex where ex: "fdiv binary32 (flog binary32 (Finite \<beta>)) (flog binary32 (Finite 0.5))
          = Finite ex" "0 < ex"
    using exponent_binary32 unfolding \<beta>_def by auto
  obtain c1 where c1: "fdiv binary32 (fmul binary32 (flit binary32 0.01) (Finite 100))
          (flog10 binary32 (fadd binary32 (Finite 1) (Finite 9))) = Finite c1"
    using display_constant_binary32 by blast
  obtain l2 where l2: "flog binary32 (Finite 2) = Finite l2" "1 / 2 \<le> l2"
    using flog_two_binary32 by blast
  obtain st where st: "flit binary32 0.018 = Finite st" "0 \<le> st"
    using start_binary32 by blast
  have a5: "fpow binary32 (Finite 0) (Finite ex) = Finite 0"
    using ex(2) by simp
  have a6: "fdiv binary32 (Finite 0) (Finite l2) = Finite 0"
    using l2(2) by (simp add: zero)
  have a7: "fmul binary32 (Finite c1) (Finite 0) = Finite 0"
    by (simp add: zero)
  show ?thesis
    unfolding map_drago_def Let_def bias st(1) binary32_literals a1 a2 a3 a4 ex(1) c1 a5 l2(1) a6 a7
    using st(2) by simp
qed

subsection \<open>The loops return when every pixel is mapped to a byte\<close>

lemma columns_total:
  assumes "\<And>j s. \<exists>s'. pixel R img exposure vals delta i j s = Inr s'"
  shows "\<exists>s'. columns R img exposure vals delta i j s = Inr s'"
proof (induction "nat (fst (getSize img) - j)" arbitrary: j s)
  case 0
  then show ?case
    by (simp add: columns.simps [of _ _ _ _ _ i j s])
next
  case (Suc n)
  then have n: "n = nat (fst (getSize img) - (j + 1))" and j: "j < fst (getSize img)"
    by linarith+
  obtain s1 where "pixel R img exposure vals delta i j s = Inr s1"
    using assms by blast
  then show ?case
    using Suc.hyps(1) [OF n, of s1] j
    by (simp add: columns.simps [of _ _ _ _ _ i j s])
qed

lemma rows_total:
  assumes "\<And>i j s. \<exists>s'. pixel R img exposure vals delta i j s = Inr s'"
  shows "\<exists>s'. rows R img exposure vals delta i s = Inr s'"
proof (induction "nat (snd (getSize img) - i)" arbitrary: i s)
  case 0
  then show ?case
    by (simp add: rows.simps [of _ _ _ _ _ i s])
next
  case (Suc n)
  then have n: "n = nat (snd (getSize img) - (i + 1))" and i: "i < snd (getSize img)"
    by linarith+
  obtain s1 where "columns R img exposure vals delta i 0 s = Inr s1"
    using columns_total [OF assms] by blast
  then show ?case
    using Suc.hyps(1) [OF n, of s1] i
    by (simp add: rows.simps [of _ _ _ _ _ i s])
qed

lemma large_operator_parameters:
  "parameters large_operator ''Gamma'' = Some (Gamma_parameter binary32)"
  "parameters large_operator ''Ldmax'' = Some (Ldmax_parameter binary32)"
  "parameters large_operator ''Lwa'' = Some (Computed (Finite 1) ''Lwa'')"
  "parameters large_operator ''Lwmax'' = Some (Computed (Finite 9) ''Lwmax'')"
  "parameters large_operator ''b'' = Some (b_parameter binary32)"
  "parameters large_operator ''start'' = Some (start_parameter binary32)"
  "parameters large_operator ''slope'' = Some (slope_parameter binary32)"
  by (simp_all add: large_operator_def large_image_def DragoOperator_def setParameters_def
      uniform_image_def)

lemma channel_byte_black_binary32:
  "channel_byte binary32 (Finite 1)
     (gamma, flit binary32 100, Finite 1, Finite 9, flit binary32 0.85, flit binary32 0.018,
      flit binary32 4.5) (Finite 0) = Inr 0"
proof -
  have zero: "binary32 0 = Finite 0"
    using binary32_of_nat [of 0] by simp
  have "quantize binary32 (Finite 0) = Inr 0"
    unfolding quantize_def binary32_literals by (simp add: zero)
  then show ?thesis
    unfolding channel_byte_def prod.case map_black_binary32 .
qed

text \<open>
  C5 fails on the code. The sink starts at 0 and every pixel adds \<^verbatim>\<open>delta\<close> to it, but
  the sum is rounded to single precision each time. For an image of 8192 by 4096 pixels
  \<^verbatim>\<open>delta\<close> is \<open>2^-25\<close>; after \<open>2^24\<close> pixels the sink holds 0.5, and
  \<open>0.5 + 2^-25\<close> lies halfway between the neighbours 0.5 and \<open>0.5 + 2^-24\<close> and is
  rounded back to 0.5. So the sink stays at 0.5 for the second half of the image and the
  call returns with 0.5, not with a value within \<open>1e-4\<close> of 1.
\<close>

theorem progress_stalls_in_single_precision:
  "\<exists>s. process binary32 large_operator large_image zero_memory (Finite 1) = Inr s
       \<and> progress s = Finite (1 / 2)"
proof -
  define vals :: drago_values where
    "vals = (flit binary32 2.2, flit binary32 100, Finite 1, Finite 9, flit binary32 0.85,
             flit binary32 0.018, flit binary32 4.5)"
  define delta where "delta = Finite (1 / 2 ^ 25)"
  define s0 where "s0 = \<lparr> buffer = zero_memory, dst = 0, progress = Finite 0 \<rparr>"
  have sz: "getSize large_image = (8192, 4096)"
    and px: "\<And>i j. ref large_image i j = Color3f (Finite 0) (Finite 0) (Finite 0)"
    by (simp_all add: large_image_def uniform_image_def)
  have m: "int_mul 8192 4096 = Inr 33554432"
    by (simp add: int_mul_def)
  have "binary32 (real 1 * 2 powr of_int 25) = Finite (real 1 * 2 powr of_int 25)"
    by (intro binary32_scaled) simp_all
  then have n: "float_of_int binary32 33554432 = Finite 33554432"
    by (simp add: float_of_int_def)
  have "binary32 (real 1 * 2 powr of_int (- 25)) = Finite (real 1 * 2 powr of_int (- 25))"
    by (intro binary32_scaled) simp_all
  then have "binary32 (1 / 33554432) = Finite (1 / 2 ^ 25)"
    by (simp add: powr_minus_divide)
  then have d: "fdiv binary32 (flit binary32 1) (float_of_int binary32 33554432) = delta"
    unfolding n binary32_literals delta_def by simp
  have p: "\<exists>s'. pixel binary32 large_image (Finite 1) vals delta i j s = Inr s'" for i j s
    unfolding pixel_channel_bytes px Color3f.case vals_def channel_byte_black_binary32 by simp
  obtain s where s: "rows binary32 large_image (Finite 1) vals delta 0 s0 = Inr s"
    using rows_total [of binary32 large_image "Finite 1" vals delta 0 s0] p by blast
  have "progress s
        = ((\<lambda>p. fadd binary32 p delta) ^^ (nat (fst (getSize large_image))
              * nat (snd (getSize large_image) - 0))) (progress s0)"
    using rows_inv [OF s] by (simp add: sz)
  also have "\<dots> = ((\<lambda>p. fadd binary32 p (Finite (1 / 2 ^ 25))) ^^ 33554432) (Finite 0)"
    by (simp add: sz s0_def delta_def)
  also have "\<dots> = Finite (real (min 33554432 (2 ^ 24)) / 2 ^ 25)"
    by (rule progress_accumulates_binary32)
  also have "\<dots> = Finite (1 / 2)"
    by simp
  finally have r: "progress s = Finite (1 / 2)" .
  have "process binary32 large_operator large_image zero_memory (Finite 1) = Inr s"
    unfolding process_rows [OF large_operator_parameters] sz fst_conv snd_conv m
      default_parameter_values param_value.simps bind_r_Inr d binary32_literals(1)
    using s unfolding vals_def s0_def by (simp only:)
  then show ?thesis
    using r by blast
qed

end
